theory Spec2Isabelle
  imports Complex_Main "HOL-Library.AList" "HOL-Library.Log_Nat"
begin

section \<open>JavaScript values and the built-ins the plugin uses\<close>

text \<open>
  The plugin (\<^verbatim>\<open>src/code.ts\<close>, second revision, lines 352-1004) receives the root
  document as parsed JSON.  A JSON value is modelled by the datatype \<open>js\<close>; an object
  is the list of its own properties in \<^verbatim>\<open>Object.entries\<close> order.  \<open>JUndefined\<close>
  is the value a missing property reads as.  A number is the rational value of a
  finite double; where the plugin computes with fractions (the product in
  \<^verbatim>\<open>rgbToHex\<close>) the result is rounded to a double, see \<open>toDouble\<close>.  Strings are
  lists of characters, and case conversion covers the ASCII letters.
\<close>

datatype js =
    JUndefined
  | JNull
  | JBool bool
  | JNum rat
  | JStr string
  | JArr "js list"
  | JObj "(string \<times> js) list"

datatype js_error = TypeError | HostError

definition dq :: string where
  "dq = [CHR 0x22]"

definition digit_char :: "nat \<Rightarrow> char" where
  "digit_char d = ''0123456789'' ! d"

fun show_nat :: "nat \<Rightarrow> string" where
  "show_nat n =
     (if n < 10 then [digit_char n] else show_nat (n div 10) @ [digit_char (n mod 10)])"

declare show_nat.simps [simp del]

definition toLowerCase_char :: "char \<Rightarrow> char" where
  "toLowerCase_char c =
     (case map_of (zip ''ABCDEFGHIJKLMNOPQRSTUVWXYZ'' ''abcdefghijklmnopqrstuvwxyz'') c of
        Some l \<Rightarrow> l
      | None \<Rightarrow> c)"

definition toLowerCase :: "string \<Rightarrow> string" where
  "toLowerCase s = map toLowerCase_char s"

definition toUpperCase_char :: "char \<Rightarrow> char" where
  "toUpperCase_char c =
     (case map_of (zip ''abcdefghijklmnopqrstuvwxyz'' ''ABCDEFGHIJKLMNOPQRSTUVWXYZ'') c of
        Some u \<Rightarrow> u
      | None \<Rightarrow> c)"

definition toUpperCase :: "string \<Rightarrow> string" where
  "toUpperCase s = map toUpperCase_char s"

definition startsWith :: "string \<Rightarrow> string \<Rightarrow> bool" where
  "startsWith s p = (take (length p) s = p)"

definition endsWith :: "string \<Rightarrow> string \<Rightarrow> bool" where
  "endsWith s p = (length p \<le> length s \<and> drop (length s - length p) s = p)"

text \<open>\<^verbatim>\<open>s.includes(p)\<close>: \<open>p\<close> occurs in \<open>s\<close> as a contiguous substring.\<close>

fun str_includes :: "string \<Rightarrow> string \<Rightarrow> bool" where
  "str_includes [] p = (p = [])"
| "str_includes (c # cs) p = (startsWith (c # cs) p \<or> str_includes cs p)"

text \<open>
  \<^verbatim>\<open>s.substring(a, b)\<close> for non-negative arguments: both are clamped to the length and
  swapped when \<open>a > b\<close>.
\<close>

definition substring :: "string \<Rightarrow> nat \<Rightarrow> nat \<Rightarrow> string" where
  "substring s a b =
     (let a' = min a (length s); b' = min b (length s)
      in take (max a' b' - min a' b') (drop (min a' b') s))"

text \<open>\<^verbatim>\<open>s.split(c)\<close> for a one-character separator, and \<^verbatim>\<open>parts.join(sep)\<close>.\<close>

fun split :: "char \<Rightarrow> string \<Rightarrow> string list" where
  "split c [] = [[]]"
| "split c (x # xs) =
     (if x = c then [] # split c xs
      else (case split c xs of
              [] \<Rightarrow> [[x]]
            | p # ps \<Rightarrow> (x # p) # ps))"

fun join :: "string \<Rightarrow> string list \<Rightarrow> string" where
  "join sep [] = []"
| "join sep [p] = p"
| "join sep (p # q # ps) = p @ sep @ join sep (q # ps)"

fun truthy :: "js \<Rightarrow> bool" where
  "truthy JUndefined = False"
| "truthy JNull = False"
| "truthy (JBool b) = b"
| "truthy (JNum n) = (n \<noteq> 0)"
| "truthy (JStr s) = (s \<noteq> [])"
| "truthy (JArr xs) = True"
| "truthy (JObj kvs) = True"

fun typeof :: "js \<Rightarrow> string" where
  "typeof JUndefined = ''undefined''"
| "typeof JNull = ''object''"
| "typeof (JBool b) = ''boolean''"
| "typeof (JNum n) = ''number''"
| "typeof (JStr s) = ''string''"
| "typeof (JArr xs) = ''object''"
| "typeof (JObj kvs) = ''object''"

fun entries_of_array :: "nat \<Rightarrow> js list \<Rightarrow> (string \<times> js) list" where
  "entries_of_array i [] = []"
| "entries_of_array i (x # xs) = (show_nat i, x) # entries_of_array (Suc i) xs"

fun entries_of_string :: "nat \<Rightarrow> string \<Rightarrow> (string \<times> js) list" where
  "entries_of_string i [] = []"
| "entries_of_string i (c # cs) = (show_nat i, JStr [c]) # entries_of_string (Suc i) cs"

text \<open>
  \<^verbatim>\<open>Object.entries(v)\<close> throws a TypeError on \<^verbatim>\<open>undefined\<close> and \<^verbatim>\<open>null\<close>, lists
  the indexed elements of an array and the characters of a string, and is empty on
  a number or a boolean.
\<close>

fun Object_entries :: "js \<Rightarrow> js_error + (string \<times> js) list" where
  "Object_entries JUndefined = Inl TypeError"
| "Object_entries JNull = Inl TypeError"
| "Object_entries (JBool b) = Inr []"
| "Object_entries (JNum n) = Inr []"
| "Object_entries (JStr s) = Inr (entries_of_string 0 s)"
| "Object_entries (JArr xs) = Inr (entries_of_array 0 xs)"
| "Object_entries (JObj kvs) = Inr kvs"

text \<open>
  \<^verbatim>\<open>k in v\<close> and \<^verbatim>\<open>v[k]\<close> for a value \<open>v\<close> the code has already tested to be an
  object.  Properties inherited from the prototypes are left out: none of the keys
  the plugin probes is one.
\<close>

fun has_property :: "string \<Rightarrow> js \<Rightarrow> bool" where
  "has_property k (JObj kvs) = (k \<in> set (map fst kvs))"
| "has_property k (JArr xs) = (k = ''length'' \<or> k \<in> set (map fst (entries_of_array 0 xs)))"
| "has_property k v = False"

fun get_property :: "js \<Rightarrow> string \<Rightarrow> js" where
  "get_property (JObj kvs) k = (case map_of kvs k of Some v \<Rightarrow> v | None \<Rightarrow> JUndefined)"
| "get_property (JArr xs) k =
     (if k = ''length'' then JNum (of_nat (length xs))
      else (case map_of (entries_of_array 0 xs) k of Some v \<Rightarrow> v | None \<Rightarrow> JUndefined))"
| "get_property v k = JUndefined"

text \<open>\<^verbatim>\<open>a || b\<close> on values.\<close>

definition js_or :: "js \<Rightarrow> js \<Rightarrow> js" where
  "js_or a b = (if truthy a then a else b)"

section \<open>Token records and the flattening traversal\<close>

text \<open>
  \<^verbatim>\<open>interface JSONVariableValue\<close> (lines 358-364).  The three \<^verbatim>\<open>$\<close>-fields hold
  whatever the document holds; the two alias fields are typed as optional strings.
\<close>

record JSONVariableValue =
  dollar_type :: js
  dollar_value :: js
  dollar_description :: js
  targetCollection :: "string option"
  targetVariable :: "string option"

text \<open>
  A \<^verbatim>\<open>Map<string, JSONVariableValue>\<close> is the list of its entries in insertion order;
  \<^verbatim>\<open>result.set(k, v)\<close> replaces the value of a key in place and appends a new key.
\<close>

type_synonym flat_map = "(string \<times> JSONVariableValue) list"

definition map_set :: "string \<Rightarrow> JSONVariableValue \<Rightarrow> flat_map \<Rightarrow> flat_map" where
  "map_set k v m = AList.update k v m"

definition map_set_all :: "flat_map \<Rightarrow> flat_map \<Rightarrow> flat_map" where
  "map_set_all children result = fold (\<lambda>(k, v). map_set k v) children result"

text \<open>Lines 408-413: the leaf test.\<close>

definition isVariable :: "js \<Rightarrow> bool" where
  "isVariable v =
     ((has_property ''$type'' v \<and> has_property ''$value'' v) \<or>
      (has_property ''type'' v \<and> has_property ''value'' v))"

text \<open>Line 417: the legacy test, made on a leaf.\<close>

definition isLegacy :: "js \<Rightarrow> bool" where
  "isLegacy v =
     (\<not> has_property ''$type'' v \<and> \<not> has_property ''$value'' v \<and>
      (has_property ''type'' v \<or> has_property ''value'' v))"

text \<open>Lines 422-426: the normalized record.  It never carries the alias fields.\<close>

definition normalized :: "js \<Rightarrow> JSONVariableValue" where
  "normalized v =
     \<lparr> dollar_type = js_or (get_property v ''$type'') (get_property v ''type''),
       dollar_value =
         (if get_property v ''$value'' \<noteq> JUndefined then get_property v ''$value''
          else get_property v ''value''),
       dollar_description =
         js_or (get_property v ''$description'') (get_property v ''description''),
       targetCollection = None,
       targetVariable = None \<rparr>"

text \<open>Line 403.\<close>

definition newKey_of :: "string \<Rightarrow> string \<Rightarrow> string" where
  "newKey_of prefix key = (if prefix \<noteq> [] then prefix @ ''/'' @ key else key)"

fun entries_size :: "(string \<times> js) list \<Rightarrow> nat" where
  "entries_size [] = 0"
| "entries_size ((k, v) # rest) = Suc (size v + entries_size rest)"

text \<open>
  \<^verbatim>\<open>flattenVariables\<close> (lines 396-439).  \<open>flattenLoop\<close> is the \<^verbatim>\<open>for\<close> loop over the
  entries: \<open>hasLegacy\<close> is the field of the shared \<^verbatim>\<open>warnLegacy\<close> object, threaded
  through every call, and \<open>result\<close> is the map of the current call.  A recursive call
  starts from an empty map and its entries are then set into \<open>result\<close> one by one.
  The test \<^verbatim>\<open>value && typeof value === 'object'\<close> holds exactly for arrays and
  objects.
\<close>

function (sequential) flattenLoop ::
  "string \<Rightarrow> (string \<times> js) list \<Rightarrow> bool \<Rightarrow> flat_map \<Rightarrow> bool \<times> flat_map"
where
  "flattenLoop prefix [] hasLegacy result = (hasLegacy, result)"
| "flattenLoop prefix ((key, v) # rest) hasLegacy result =
     (if startsWith key ''_'' \<or> startsWith key ''$'' then
        flattenLoop prefix rest hasLegacy result
      else
        (case v of
           JObj props \<Rightarrow>
             if isVariable v then
               flattenLoop prefix rest (hasLegacy \<or> isLegacy v)
                 (map_set (newKey_of prefix key) (normalized v) result)
             else
               (case flattenLoop (newKey_of prefix key) props hasLegacy [] of
                  (hasLegacy', children) \<Rightarrow>
                    flattenLoop prefix rest hasLegacy' (map_set_all children result))
         | JArr elems \<Rightarrow>
             if isVariable v then
               flattenLoop prefix rest (hasLegacy \<or> isLegacy v)
                 (map_set (newKey_of prefix key) (normalized v) result)
             else
               (case flattenLoop (newKey_of prefix key) (entries_of_array 0 elems)
                       hasLegacy [] of
                  (hasLegacy', children) \<Rightarrow>
                    flattenLoop prefix rest hasLegacy' (map_set_all children result))
         | _ \<Rightarrow> flattenLoop prefix rest hasLegacy result))"
  by pat_completeness auto

lemma entries_size_array: "entries_size (entries_of_array i xs) = size_list size xs"
  by (induction xs arbitrary: i) auto

lemma entries_size_obj:
  "entries_size props \<le> size_list (size_prod (\<lambda>x. 0) size) props"
  by (induction props) auto

lemma entries_size_obj_less:
  "entries_size props < Suc (Suc (size_list (size_prod (\<lambda>x. 0) size) props + n))"
  using entries_size_obj [of props] by simp

termination flattenLoop
  by (relation "measure (\<lambda>(prefix, ents, hasLegacy, result). entries_size ents)")
     (auto simp: entries_size_obj_less entries_size_array)

definition flattenVariables ::
  "js \<Rightarrow> string \<Rightarrow> bool \<Rightarrow> js_error + (bool \<times> flat_map)" where
  "flattenVariables obj prefix hasLegacy =
     (case Object_entries obj of
        Inl e \<Rightarrow> Inl e
      | Inr ents \<Rightarrow> Inr (flattenLoop prefix ents hasLegacy []))"

section \<open>The host's variable store\<close>

text \<open>
  The host (the design tool's plugin API) is outside the repository.  Its state is a
  record: the local collections with their modes, the local variables with one value
  per mode, a counter for fresh ids, and the events the plugin has sent to the
  logging sink and the user interface, oldest first.
\<close>

datatype VariableResolvedDataType = BOOLEAN | COLOR | FLOAT | STRING

datatype VariableValue =
    VariableAlias nat
  | BooleanValue bool
  | FloatValue rat
  | StringValue string
  | ColorValue rat rat rat "rat option"

record Mode =
  modeId :: nat
  mode_name :: string

record VariableCollection =
  collection_id :: nat
  collection_name :: string
  collection_modes :: "Mode list"

record Variable =
  variable_id :: nat
  variable_name :: string
  variableCollectionId :: nat
  resolvedType :: VariableResolvedDataType
  valuesByMode :: "(nat \<times> VariableValue) list"

datatype level = INFO | WARN | ERROR

text \<open>
  \<open>Log\<close> is a call of \<^verbatim>\<open>log\<close> (lines 381-384); \<open>LogException p e\<close> is an ERROR log
  whose message is \<open>p\<close> followed by the text of the exception \<open>e\<close>; the others are the
  \<^verbatim>\<open>postMessage\<close> calls of kind progress, import-success and error.
\<close>

datatype event =
    Log level string
  | LogException string js_error
  | Progress string
  | ImportSuccess
  | ImportError js_error

record host =
  collections :: "VariableCollection list"
  variables :: "Variable list"
  nextId :: nat
  events :: "event list"

text \<open>
  What the plugin cannot decide by itself is a parameter of the model: the built-in
  \<^verbatim>\<open>parseFloat\<close> (\<open>None\<close> is NaN), \<^verbatim>\<open>figma.util.rgb\<close> (\<open>None\<close>: it throws), whether
  the host refuses to create a variable, which host-native value the host stores for
  a value handed to \<^verbatim>\<open>setValueForMode\<close> on a variable of a given resolved type
  (\<open>None\<close>: it throws), and whether it refuses an alias from one variable to another.
\<close>

record externals =
  parseFloat :: "string \<Rightarrow> rat option"
  figma_util_rgb :: "string \<Rightarrow> js option"
  createVariable_throws :: "host \<Rightarrow> string \<Rightarrow> nat \<Rightarrow> VariableResolvedDataType \<Rightarrow> bool"
  toVariableValue :: "VariableResolvedDataType \<Rightarrow> js \<Rightarrow> VariableValue option"
  alias_throws :: "Variable \<Rightarrow> Variable \<Rightarrow> bool"

definition emit :: "event \<Rightarrow> host \<Rightarrow> host" where
  "emit e h = h\<lparr>events := events h @ [e]\<rparr>"

definition log :: "level \<Rightarrow> string \<Rightarrow> host \<Rightarrow> host" where
  "log l message h = emit (Log l message) h"

text \<open>
  The host calls the import makes.  A new collection comes with one default mode
  named \<^verbatim>\<open>Mode 1\<close>; creating a collection, renaming a mode and adding a mode are
  taken to succeed.
\<close>

definition createVariableCollection :: "string \<Rightarrow> host \<Rightarrow> VariableCollection \<times> host" where
  "createVariableCollection name h =
     (let c = \<lparr> collection_id = nextId h, collection_name = name,
                collection_modes = [\<lparr> modeId = Suc (nextId h), mode_name = ''Mode 1'' \<rparr>] \<rparr>
      in (c, h\<lparr>collections := collections h @ [c], nextId := nextId h + 2\<rparr>))"

definition renameMode :: "nat \<Rightarrow> nat \<Rightarrow> string \<Rightarrow> host \<Rightarrow> host" where
  "renameMode cid mid newName h =
     h\<lparr>collections :=
         map (\<lambda>c. if collection_id c = cid then
                     c\<lparr>collection_modes :=
                         map (\<lambda>m. if modeId m = mid then m\<lparr>mode_name := newName\<rparr> else m)
                           (collection_modes c)\<rparr>
                   else c)
           (collections h)\<rparr>"

definition addMode :: "nat \<Rightarrow> string \<Rightarrow> host \<Rightarrow> nat \<times> host" where
  "addMode cid name h =
     (nextId h,
      h\<lparr>collections :=
          map (\<lambda>c. if collection_id c = cid then
                      c\<lparr>collection_modes :=
                          collection_modes c @ [\<lparr> modeId = nextId h, mode_name = name \<rparr>]\<rparr>
                    else c)
            (collections h),
        nextId := Suc (nextId h)\<rparr>)"

definition createVariable ::
  "string \<Rightarrow> nat \<Rightarrow> VariableResolvedDataType \<Rightarrow> host \<Rightarrow> host" where
  "createVariable name cid type h =
     h\<lparr>variables :=
         variables h @
           [\<lparr> variable_id = nextId h, variable_name = name, variableCollectionId = cid,
              resolvedType = type, valuesByMode = [] \<rparr>],
       nextId := Suc (nextId h)\<rparr>"

definition setValueForMode :: "nat \<Rightarrow> nat \<Rightarrow> VariableValue \<Rightarrow> host \<Rightarrow> host" where
  "setValueForMode vid mid val h =
     h\<lparr>variables :=
         map (\<lambda>v. if variable_id v = vid then
                     v\<lparr>valuesByMode := AList.update mid val (valuesByMode v)\<rparr>
                   else v)
           (variables h)\<rparr>"

section \<open>Import: the three passes of \<^verbatim>\<open>handleImport\<close> (lines 786-1004)\<close>

text \<open>
  The root document, typed as \<^verbatim>\<open>JSONRoot\<close>: collection name to mode name to token
  tree, each level in \<^verbatim>\<open>Object.entries\<close> order.  A token tree is any JSON value.
\<close>

type_synonym JSONCollection = "(string \<times> js) list"
type_synonym JSONRoot = "(string \<times> JSONCollection) list"

text \<open>Lines 386-394.\<close>

definition mapJsonTypeToFigmaType :: "string \<Rightarrow> VariableResolvedDataType" where
  "mapJsonTypeToFigmaType jsonType =
     (let type = toLowerCase jsonType
      in if type = ''color'' then COLOR
         else if type = ''number'' then FLOAT
         else if type = ''boolean'' then BOOLEAN
         else if type = ''string'' then STRING
         else STRING)"

subsection \<open>Pass 1: collections and modes (lines 797-831)\<close>

text \<open>
  The loop over \<^verbatim>\<open>jsonModeNames\<close> (lines 811-829), at index \<open>i\<close>.  \<open>existingModes\<close> is
  the array read from the collection once, before the loop (line 809), so it does
  not see the renames and additions the loop makes.
\<close>

fun pass1_modes ::
  "nat \<Rightarrow> string \<Rightarrow> Mode list \<Rightarrow> string list \<Rightarrow> nat \<Rightarrow> (string \<times> nat) list \<Rightarrow> host \<Rightarrow>
   (string \<times> nat) list \<times> host"
where
  "pass1_modes cid collectionName existingModes [] i modeMap h = (modeMap, h)"
| "pass1_modes cid collectionName existingModes (modeName # names) i modeMap h =
     (case find (\<lambda>m. mode_name m = modeName) existingModes of
        Some m \<Rightarrow>
          pass1_modes cid collectionName existingModes names (Suc i)
            (AList.update modeName (modeId m) modeMap) h
      | None \<Rightarrow>
          (case find (\<lambda>m. mode_name m = ''Mode 1'') existingModes of
             Some defaultMode \<Rightarrow>
               if i = 0 then
                 pass1_modes cid collectionName existingModes names (Suc i)
                   (AList.update modeName (modeId defaultMode) modeMap)
                   (log INFO
                      (''Renamed default '' @ dq @ ''Mode 1'' @ dq @ '' to '' @ dq @ modeName @ dq @
                       '' in collection '' @ dq @ collectionName @ dq)
                      (renameMode cid (modeId defaultMode) modeName h))
               else
                 (case addMode cid modeName h of
                    (newId, h') \<Rightarrow>
                      pass1_modes cid collectionName existingModes names (Suc i)
                        (AList.update modeName newId modeMap)
                        (log INFO
                           (''Adding mode '' @ dq @ modeName @ dq @ '' to collection '' @ dq @
                            collectionName @ dq) h'))
           | None \<Rightarrow>
               (case addMode cid modeName h of
                  (newId, h') \<Rightarrow>
                    pass1_modes cid collectionName existingModes names (Suc i)
                      (AList.update modeName newId modeMap)
                      (log INFO
                         (''Adding mode '' @ dq @ modeName @ dq @ '' to collection '' @ dq @
                          collectionName @ dq) h'))))"

text \<open>Lines 798-802: find the collection by name, or create it.\<close>

definition findOrCreateCollection :: "string \<Rightarrow> host \<Rightarrow> VariableCollection \<times> host" where
  "findOrCreateCollection collectionName h =
     (case find (\<lambda>c. collection_name c = collectionName) (collections h) of
        Some c \<Rightarrow> (c, h)
      | None \<Rightarrow>
          (case createVariableCollection collectionName h of
             (c, h') \<Rightarrow> (c, log INFO (''Creating collection: '' @ collectionName) h')))"

text \<open>
  \<open>collectionMap\<close> keeps the id of each collection handle; \<open>collectionModeMaps\<close> keeps
  the mode map of each collection.
\<close>

fun pass1 ::
  "JSONRoot \<Rightarrow> (string \<times> nat) list \<Rightarrow> (string \<times> (string \<times> nat) list) list \<Rightarrow> host \<Rightarrow>
   (string \<times> nat) list \<times> (string \<times> (string \<times> nat) list) list \<times> host"
where
  "pass1 [] collectionMap collectionModeMaps h = (collectionMap, collectionModeMaps, h)"
| "pass1 ((collectionName, modes) # rest) collectionMap collectionModeMaps h =
     (case findOrCreateCollection collectionName h of
        (collection, h1) \<Rightarrow>
          (case pass1_modes (collection_id collection) collectionName
                  (collection_modes collection) (map fst modes) 0 [] h1 of
             (modeMap, h2) \<Rightarrow>
               pass1 rest
                 (AList.update collectionName (collection_id collection) collectionMap)
                 (AList.update collectionName modeMap collectionModeMaps) h2))"

subsection \<open>Pass 2: variables (lines 833-869)\<close>

text \<open>
  Lines 855-859.  \<^verbatim>\<open>mapJsonTypeToFigmaType\<close> calls \<^verbatim>\<open>toLowerCase\<close> on its argument,
  which throws a TypeError when a truthy type tag is not a string.
\<close>

definition variableType :: "JSONVariableValue \<Rightarrow> js_error + VariableResolvedDataType" where
  "variableType varData =
     (if truthy (dollar_type varData) then
        (case dollar_type varData of
           JStr s \<Rightarrow> Inr (mapJsonTypeToFigmaType s)
         | _ \<Rightarrow> Inl TypeError)
      else Inr STRING)"

definition type_name :: "VariableResolvedDataType \<Rightarrow> string" where
  "type_name t =
     (case t of BOOLEAN \<Rightarrow> ''BOOLEAN'' | COLOR \<Rightarrow> ''COLOR'' | FLOAT \<Rightarrow> ''FLOAT''
      | STRING \<Rightarrow> ''STRING'')"

text \<open>
  Lines 844-849 and 885-890: every 20 items a progress message is posted (the
  \<^verbatim>\<open>delay\<close> that follows only yields to the host).
\<close>

definition progress :: "string \<Rightarrow> nat \<Rightarrow> nat \<Rightarrow> host \<Rightarrow> host" where
  "progress what processedCount len h =
     (if processedCount mod 20 = 0 then
        emit (Progress (what @ ''... ('' @ show_nat processedCount @ ''/'' @ show_nat len @ '')'')) h
      else h)"

definition findVariable :: "string \<Rightarrow> nat \<Rightarrow> host \<Rightarrow> Variable option" where
  "findVariable varName cid h =
     find (\<lambda>v. variable_name v = varName \<and> variableCollectionId v = cid) (variables h)"

text \<open>
  The loop over the flattened variables of one collection (lines 843-868).  A
  TypeError of \<open>variableType\<close> is outside the \<^verbatim>\<open>try\<close> and leaves the pass; a refusal
  of \<^verbatim>\<open>createVariable\<close> is caught and logged.
\<close>

fun pass2_variables ::
  "externals \<Rightarrow> nat \<Rightarrow> flat_map \<Rightarrow> nat \<Rightarrow> nat \<Rightarrow> host \<Rightarrow> (js_error \<times> host) + host"
where
  "pass2_variables ext cid [] processedCount len h = Inr h"
| "pass2_variables ext cid ((varName, varData) # rest) processedCount len h =
     (let h1 = progress ''Creating variables'' processedCount len h
      in case findVariable varName cid h1 of
           Some variable \<Rightarrow> pass2_variables ext cid rest (Suc processedCount) len h1
         | None \<Rightarrow>
             (case variableType varData of
                Inl e \<Rightarrow> Inl (e, h1)
              | Inr type \<Rightarrow>
                  if createVariable_throws ext h1 varName cid type then
                    pass2_variables ext cid rest (Suc processedCount) len
                      (emit (LogException (''Failed to create variable '' @ varName @ '': '')
                               HostError) h1)
                  else
                    pass2_variables ext cid rest (Suc processedCount) len
                      (log INFO
                         (''Creating variable: '' @ varName @ '' ('' @ type_name type @ '')'')
                         (createVariable varName cid type h1))))"

text \<open>
  Lines 839-840: \<^verbatim>\<open>modes[Object.keys(modes)[0]]\<close>.  With no mode declared the key
  is \<^verbatim>\<open>undefined\<close> and so is the tree.
\<close>

definition firstModeTree :: "JSONCollection \<Rightarrow> js" where
  "firstModeTree modes =
     (case map fst modes of
        [] \<Rightarrow> JUndefined
      | firstModeName # others \<Rightarrow>
          (case map_of modes firstModeName of Some tree \<Rightarrow> tree | None \<Rightarrow> JUndefined))"

fun pass2 ::
  "externals \<Rightarrow> JSONRoot \<Rightarrow> (string \<times> nat) list \<Rightarrow> bool \<Rightarrow> host \<Rightarrow>
   (js_error \<times> host) + (bool \<times> host)"
where
  "pass2 ext [] collectionMap hasLegacy h = Inr (hasLegacy, h)"
| "pass2 ext ((collectionName, modes) # rest) collectionMap hasLegacy h =
     (case map_of collectionMap collectionName of
        None \<Rightarrow> pass2 ext rest collectionMap hasLegacy h
      | Some cid \<Rightarrow>
          (case flattenVariables (firstModeTree modes) [] hasLegacy of
             Inl e \<Rightarrow> Inl (e, h)
           | Inr (hasLegacy', vars) \<Rightarrow>
               (case pass2_variables ext cid vars 0 (length vars) h of
                  Inl eh \<Rightarrow> Inl eh
                | Inr h' \<Rightarrow> pass2 ext rest collectionMap hasLegacy' h')))"

subsection \<open>Pass 3: values (lines 871-991)\<close>

text \<open>
  Lines 909-919: the string form of an alias, \<^verbatim>\<open>{Collection.Path.To.Variable}\<close>.
  \<^verbatim>\<open>valueToSet.length - 1\<close> is never negative here, since the string starts with a
  brace.
\<close>

definition stringAlias :: "js \<Rightarrow> (string \<times> string) option" where
  "stringAlias valueToSet =
     (case valueToSet of
        JStr s \<Rightarrow>
          if startsWith s ''{'' \<and> endsWith s ''}'' then
            (let content = substring s 1 (length s - 1);
                 parts = split CHR ''.'' content
             in if length parts \<ge> 2 then Some (parts ! 0, join ''/'' (drop 1 parts))
                else None)
          else None
      | _ \<Rightarrow> None)"

text \<open>
  Lines 898-919: alias detection.  The result is the pair of
  \<^verbatim>\<open>targetCollectionName\<close> and \<^verbatim>\<open>targetVariableName\<close> when \<^verbatim>\<open>isAlias\<close> is set.
\<close>

definition detectAlias :: "JSONVariableValue \<Rightarrow> (string \<times> string) option" where
  "detectAlias varData =
     (case (targetCollection varData, targetVariable varData) of
        (Some tc, Some tv) \<Rightarrow>
          if tc \<noteq> [] \<and> tv \<noteq> [] then Some (tc, tv)
          else stringAlias (dollar_value varData)
      | _ \<Rightarrow> stringAlias (dollar_value varData))"

text \<open>Lines 928-932: the exact match.\<close>

definition exactMatch :: "host \<Rightarrow> string \<Rightarrow> string \<Rightarrow> Variable option" where
  "exactMatch h targetCollectionName targetVariableName =
     (case find (\<lambda>c. collection_name c = targetCollectionName) (collections h) of
        None \<Rightarrow> None
      | Some targetCol \<Rightarrow>
          find (\<lambda>v. variable_name v = targetVariableName \<and>
                     variableCollectionId v = collection_id targetCol)
            (variables h))"

text \<open>Line 937: the search of the whole namespace by name.\<close>

definition fuzzyMatch :: "host \<Rightarrow> string \<Rightarrow> Variable option" where
  "fuzzyMatch h targetVariableName =
     find (\<lambda>v. variable_name v = targetVariableName) (variables h)"

text \<open>Lines 939-940: the warning of the fuzzy match.\<close>

definition fuzzyWarning :: "host \<Rightarrow> string \<Rightarrow> string \<Rightarrow> Variable \<Rightarrow> event" where
  "fuzzyWarning h targetCollectionName targetVariableName targetVar =
     Log WARN
       (''Fuzzy match found for alias '' @ dq @ targetVariableName @ dq @
        '': Expected collection '' @ dq @ targetCollectionName @ dq @ '', found in '' @ dq @
        (case find (\<lambda>c. collection_id c = variableCollectionId targetVar) (collections h) of
           Some foundCol \<Rightarrow> collection_name foundCol
         | None \<Rightarrow> ''undefined'') @ dq)"

text \<open>Lines 923-942: the resolution, with the host after the warning (if any).\<close>

definition resolveAlias :: "host \<Rightarrow> string \<Rightarrow> string \<Rightarrow> Variable option \<times> host" where
  "resolveAlias h targetCollectionName targetVariableName =
     (case exactMatch h targetCollectionName targetVariableName of
        Some targetVar \<Rightarrow> (Some targetVar, h)
      | None \<Rightarrow>
          (case fuzzyMatch h targetVariableName of
             Some targetVar \<Rightarrow>
               (Some targetVar,
                emit (fuzzyWarning h targetCollectionName targetVariableName targetVar) h)
           | None \<Rightarrow> (None, h)))"

definition notFoundWarning :: "string \<Rightarrow> string \<Rightarrow> event" where
  "notFoundWarning targetCollectionName targetVariableName =
     Log WARN
       (''Alias target variable not found: '' @ dq @ targetVariableName @ dq @
        '' (Collection: '' @ dq @ targetCollectionName @ dq @ '')'')"

text \<open>Lines 921-948: the alias branch.  An exception carries the host it left.\<close>

definition setAlias ::
  "externals \<Rightarrow> Variable \<Rightarrow> nat \<Rightarrow> string \<Rightarrow> string \<Rightarrow> host \<Rightarrow> (js_error \<times> host) + host" where
  "setAlias ext variable mid targetCollectionName targetVariableName h =
     (case resolveAlias h targetCollectionName targetVariableName of
        (Some targetVar, h1) \<Rightarrow>
          if alias_throws ext variable targetVar then Inl (HostError, h1)
          else Inr (setValueForMode (variable_id variable) mid
                      (VariableAlias (variable_id targetVar)) h1)
      | (None, h1) \<Rightarrow>
          Inr (emit (notFoundWarning targetCollectionName targetVariableName) h1))"

definition element :: "js list \<Rightarrow> nat \<Rightarrow> js" where
  "element xs i = (if i < length xs then xs ! i else JUndefined)"

text \<open>Lines 952-964: the structured values of the full-spec format.\<close>

definition unwrapStructured :: "js \<Rightarrow> js" where
  "unwrapStructured valueToSet =
     (if typeof valueToSet = ''object'' \<and> valueToSet \<noteq> JNull then
        (case get_property valueToSet ''components'' of
           JArr components \<Rightarrow>
             if has_property ''colorSpace'' valueToSet \<and> has_property ''components'' valueToSet
             then JObj [(''r'', element components 0), (''g'', element components 1),
                        (''b'', element components 2), (''a'', JNum 1)]
             else if has_property ''value'' valueToSet \<and> has_property ''unit'' valueToSet
             then get_property valueToSet ''value''
             else valueToSet
         | _ \<Rightarrow>
             if has_property ''value'' valueToSet \<and> has_property ''unit'' valueToSet
             then get_property valueToSet ''value''
             else valueToSet)
      else valueToSet)"

text \<open>\<^verbatim>\<open>v.toLowerCase()\<close> on any value: only a string has the method.\<close>

definition call_toLowerCase :: "js \<Rightarrow> js_error + string" where
  "call_toLowerCase v = (case v of JStr s \<Rightarrow> Inr (toLowerCase s) | _ \<Rightarrow> Inl TypeError)"

text \<open>
  Lines 966-982: the conversions by resolved type.  The BOOLEAN branch is two
  statements in sequence, each calling \<^verbatim>\<open>valueToSet.toLowerCase()\<close>; the second one
  runs on what the first one left in \<^verbatim>\<open>valueToSet\<close>.
\<close>

definition convertType ::
  "externals \<Rightarrow> VariableResolvedDataType \<Rightarrow> js \<Rightarrow> js_error + js" where
  "convertType ext rt valueToSet =
     (case valueToSet of
        JStr s \<Rightarrow>
          if rt = COLOR \<and> startsWith s ''#'' then
            (case figma_util_rgb ext s of None \<Rightarrow> Inl HostError | Some c \<Rightarrow> Inr c)
          else if rt = FLOAT then
            (case parseFloat ext s of
               Some parsed \<Rightarrow> Inr (JNum parsed)
             | None \<Rightarrow> Inr valueToSet)
          else if rt = BOOLEAN then
            (case call_toLowerCase valueToSet of
               Inl e \<Rightarrow> Inl e
             | Inr l1 \<Rightarrow>
                 (let valueToSet1 = (if l1 = ''true'' then JBool True else valueToSet)
                  in case call_toLowerCase valueToSet1 of
                       Inl e \<Rightarrow> Inl e
                     | Inr l2 \<Rightarrow> Inr (if l2 = ''false'' then JBool False else valueToSet1)))
          else Inr valueToSet
      | _ \<Rightarrow> Inr valueToSet)"

text \<open>Lines 949-985: the branch of a value that is not an alias.\<close>

definition setScalar ::
  "externals \<Rightarrow> Variable \<Rightarrow> nat \<Rightarrow> js \<Rightarrow> host \<Rightarrow> (js_error \<times> host) + host" where
  "setScalar ext variable mid valueToSet h =
     (case convertType ext (resolvedType variable) (unwrapStructured valueToSet) of
        Inl e \<Rightarrow> Inl (e, h)
      | Inr converted \<Rightarrow>
          (case toVariableValue ext (resolvedType variable) converted of
             None \<Rightarrow> Inl (HostError, h)
           | Some val \<Rightarrow> Inr (setValueForMode (variable_id variable) mid val h)))"

text \<open>Lines 897-985: the body of the \<^verbatim>\<open>try\<close>.\<close>

definition trySetValue ::
  "externals \<Rightarrow> Variable \<Rightarrow> nat \<Rightarrow> JSONVariableValue \<Rightarrow> host \<Rightarrow> (js_error \<times> host) + host" where
  "trySetValue ext variable mid varData h =
     (case detectAlias varData of
        Some (targetCollectionName, targetVariableName) \<Rightarrow>
          setAlias ext variable mid targetCollectionName targetVariableName h
      | None \<Rightarrow> setScalar ext variable mid (dollar_value varData) h)"

text \<open>
  Lines 884-989: one flattened variable of one mode.  Whatever the body throws is
  caught and logged (lines 986-988), so the step always returns.
\<close>

definition pass3_item ::
  "externals \<Rightarrow> nat \<Rightarrow> nat \<Rightarrow> string \<times> JSONVariableValue \<Rightarrow> nat \<Rightarrow> nat \<Rightarrow> host \<Rightarrow> host" where
  "pass3_item ext cid mid item processedCount len h =
     (case item of
        (varName, varData) \<Rightarrow>
          (let h1 = progress ''Setting values'' processedCount len h
           in case findVariable varName cid h1 of
                None \<Rightarrow> h1
              | Some variable \<Rightarrow>
                  (case trySetValue ext variable mid varData h1 of
                     Inr h2 \<Rightarrow> h2
                   | Inl (e, h2) \<Rightarrow>
                       emit (LogException
                               (''Error setting value for '' @ dq @ varName @ dq @ '': '') e) h2)))"

fun pass3_variables ::
  "externals \<Rightarrow> nat \<Rightarrow> nat \<Rightarrow> flat_map \<Rightarrow> nat \<Rightarrow> nat \<Rightarrow> host \<Rightarrow> host"
where
  "pass3_variables ext cid mid [] processedCount len h = h"
| "pass3_variables ext cid mid (item # rest) processedCount len h =
     pass3_variables ext cid mid rest (Suc processedCount) len
       (pass3_item ext cid mid item processedCount len h)"

text \<open>Line 878: \<^verbatim>\<open>modeMap?.get(modeName)\<close>.\<close>

definition modeMap_get :: "(string \<times> nat) list option \<Rightarrow> string \<Rightarrow> nat option" where
  "modeMap_get modeMap modeName =
     (case modeMap of None \<Rightarrow> None | Some mm \<Rightarrow> map_of mm modeName)"

text \<open>Lines 877-990: the modes of one collection.\<close>

fun pass3_modes ::
  "externals \<Rightarrow> nat \<Rightarrow> (string \<times> nat) list option \<Rightarrow> JSONCollection \<Rightarrow> bool \<Rightarrow> host \<Rightarrow>
   (js_error \<times> host) + (bool \<times> host)"
where
  "pass3_modes ext cid modeMap [] hasLegacy h = Inr (hasLegacy, h)"
| "pass3_modes ext cid modeMap ((modeName, varGroups) # rest) hasLegacy h =
     (case modeMap_get modeMap modeName of
        None \<Rightarrow> pass3_modes ext cid modeMap rest hasLegacy h
      | Some mid \<Rightarrow>
          (case flattenVariables varGroups [] hasLegacy of
             Inl e \<Rightarrow> Inl (e, h)
           | Inr (hasLegacy', vars) \<Rightarrow>
               pass3_modes ext cid modeMap rest hasLegacy'
                 (pass3_variables ext cid mid vars 0 (length vars) h)))"

fun pass3 ::
  "externals \<Rightarrow> JSONRoot \<Rightarrow> (string \<times> nat) list \<Rightarrow> (string \<times> (string \<times> nat) list) list \<Rightarrow>
   bool \<Rightarrow> host \<Rightarrow> (js_error \<times> host) + (bool \<times> host)"
where
  "pass3 ext [] collectionMap collectionModeMaps hasLegacy h = Inr (hasLegacy, h)"
| "pass3 ext ((collectionName, modes) # rest) collectionMap collectionModeMaps hasLegacy h =
     (case map_of collectionMap collectionName of
        None \<Rightarrow> pass3 ext rest collectionMap collectionModeMaps hasLegacy h
      | Some cid \<Rightarrow>
          (case pass3_modes ext cid (map_of collectionModeMaps collectionName) modes
                  hasLegacy h of
             Inl eh \<Rightarrow> Inl eh
           | Inr (hasLegacy', h') \<Rightarrow>
               pass3 ext rest collectionMap collectionModeMaps hasLegacy' h'))"

subsection \<open>The whole import\<close>

definition legacyWarning :: event where
  "legacyWarning =
     Log WARN
       (''Your JSON file uses legacy format (value/type). Please update to W3C DTCG format '' @
        ''($value/$type) for full compatibility.'')"

text \<open>Lines 1000-1003: the handler of whatever leaves the three passes.\<close>

definition importFailed :: "js_error \<Rightarrow> host \<Rightarrow> host" where
  "importFailed e h = emit (ImportError e) (emit (LogException [] e) h)"

text \<open>Lines 993-999.\<close>

definition importCompleted :: "bool \<Rightarrow> host \<Rightarrow> host" where
  "importCompleted hasLegacy h =
     emit ImportSuccess
       (log INFO ''Import completed successfully.''
          (if hasLegacy then emit legacyWarning h else h))"

text \<open>
  The three passes in sequence, from the fresh \<^verbatim>\<open>legacyDetector\<close> of line 791: the
  exception that left them with the host at that moment, or the final flag and host.
\<close>

definition importPasses ::
  "externals \<Rightarrow> JSONRoot \<Rightarrow> host \<Rightarrow> (js_error \<times> host) + (bool \<times> host)" where
  "importPasses ext data h =
     (case pass1 data [] [] h of
        (collectionMap, collectionModeMaps, h1) \<Rightarrow>
          (case pass2 ext data collectionMap False h1 of
             Inl eh \<Rightarrow> Inl eh
           | Inr (hasLegacy, h2) \<Rightarrow>
               pass3 ext data collectionMap collectionModeMaps hasLegacy h2))"

definition handleImport :: "externals \<Rightarrow> JSONRoot \<Rightarrow> host \<Rightarrow> host" where
  "handleImport ext data h =
     (case importPasses ext data (log INFO ''Starting import...'' h) of
        Inl (e, h') \<Rightarrow> importFailed e h'
      | Inr (hasLegacy, h') \<Rightarrow> importCompleted hasLegacy h')"

section \<open>Export\<close>

subsection \<open>Colours as hexadecimal strings (lines 486-491)\<close>

text \<open>
  The product of two doubles is the exact product rounded to the nearest double, a
  tie going to the even significand.  \<open>exponent x\<close> is the integer \<open>e\<close> with
  \<open>2 ^ e \<le> x < 2 ^ (e + 1)\<close> for a positive \<open>x\<close>; a double has 53 significant bits
  and its exponent is at least -1022, so the doubles around \<open>x\<close> are the multiples
  of \<open>2 ^ (max e (-1022) - 52)\<close>.  A magnitude beyond the largest double, which the
  code would turn into Infinity, is rounded in the same way here: no channel of a
  colour comes near it.
\<close>

definition round_half_even :: "rat \<Rightarrow> int" where
  "round_half_even z =
     (let f = \<lfloor>z\<rfloor>
      in if z - of_int f < 1 / 2 then f
         else if 1 / 2 < z - of_int f then f + 1
         else if even f then f
         else f + 1)"

definition exponent :: "rat \<Rightarrow> int" where
  "exponent x =
     (if 1 \<le> x then int (floorlog 2 (nat \<lfloor>x\<rfloor>)) - 1
      else - int (ceillog2 (nat \<lceil>1 / x\<rceil>)))"

definition toDouble :: "rat \<Rightarrow> rat" where
  "toDouble x =
     (if x = 0 then 0
      else (let q = 2 powi (max (exponent \<bar>x\<bar>) (- 1022) - 52)
            in sgn x * (q * of_int (round_half_even (\<bar>x\<bar> / q)))))"

definition times_double :: "rat \<Rightarrow> rat \<Rightarrow> rat" where
  "times_double x y = toDouble (x * y)"

text \<open>
  \<^verbatim>\<open>Math.round\<close> gives the integer nearest to its argument, a tie going upwards.
  \<^verbatim>\<open>x << n\<close> works on 32-bit two's complement integers: \<open>toInt32\<close> is the
  wrap-around.
\<close>

definition Math_round :: "rat \<Rightarrow> int" where
  "Math_round x = \<lfloor>x + 1 / 2\<rfloor>"

definition toInt32 :: "int \<Rightarrow> int" where
  "toInt32 x = (x + 2 ^ 31) mod 2 ^ 32 - 2 ^ 31"

definition shiftLeft :: "int \<Rightarrow> nat \<Rightarrow> int" where
  "shiftLeft x n = toInt32 (toInt32 x * 2 ^ (n mod 32))"

definition hex_char :: "nat \<Rightarrow> char" where
  "hex_char d = ''0123456789abcdef'' ! d"

fun hex_digits :: "nat \<Rightarrow> string" where
  "hex_digits n =
     (if n < 16 then [hex_char n] else hex_digits (n div 16) @ [hex_char (n mod 16)])"

declare hex_digits.simps [simp del]

text \<open>\<^verbatim>\<open>n.toString(16)\<close> on an integer.\<close>

definition toString16 :: "int \<Rightarrow> string" where
  "toString16 n = (if n < 0 then CHR ''-'' # hex_digits (nat (- n)) else hex_digits (nat n))"

definition rgbToHex :: "rat \<Rightarrow> rat \<Rightarrow> rat \<Rightarrow> string" where
  "rgbToHex r g b =
     (let rInt = Math_round (times_double r 255);
          gInt = Math_round (times_double g 255);
          bInt = Math_round (times_double b 255)
      in toUpperCase
           (drop 1 (toString16 (shiftLeft 1 24 + shiftLeft rInt 16 + shiftLeft gInt 8 + bInt))))"

subsection \<open>\<^verbatim>\<open>convertValueForFormat\<close> (lines 494-522)\<close>

datatype ExportFormat = simplified | fullspec | css | tailwind

text \<open>A host-native value as the plugin reads it; a missing value reads as undefined.\<close>

fun js_of_value :: "VariableValue option \<Rightarrow> js" where
  "js_of_value None = JUndefined"
| "js_of_value (Some (VariableAlias i)) =
     JObj [(''type'', JStr ''VARIABLE_ALIAS''), (''id'', JNum (of_nat i))]"
| "js_of_value (Some (BooleanValue b)) = JBool b"
| "js_of_value (Some (FloatValue n)) = JNum n"
| "js_of_value (Some (StringValue s)) = JStr s"
| "js_of_value (Some (ColorValue r g b None)) =
     JObj [(''r'', JNum r), (''g'', JNum g), (''b'', JNum b)]"
| "js_of_value (Some (ColorValue r g b (Some a))) =
     JObj [(''r'', JNum r), (''g'', JNum g), (''b'', JNum b), (''a'', JNum a)]"

text \<open>
  The result \<open>JNull\<close> signals an alias.  Of the host-native values only a colour is
  an object with a property \<^verbatim>\<open>r\<close>, and only an alias one with a property
  \<^verbatim>\<open>type\<close>.
\<close>

definition convertValueForFormat ::
  "VariableValue option \<Rightarrow> Variable \<Rightarrow> ExportFormat \<Rightarrow> js" where
  "convertValueForFormat val variable format =
     (case val of
        Some (VariableAlias i) \<Rightarrow> JNull
      | _ \<Rightarrow>
          if format = fullspec then
            (case val of
               Some (ColorValue r g b a) \<Rightarrow>
                 if resolvedType variable = COLOR then
                   JObj [(''colorSpace'', JStr ''srgb''),
                         (''components'', JArr [JNum r, JNum g, JNum b])]
                 else if resolvedType variable = FLOAT then
                   JObj [(''value'', js_of_value val), (''unit'', JStr ''px'')]
                 else js_of_value val
             | _ \<Rightarrow>
                 if resolvedType variable = FLOAT then
                   JObj [(''value'', js_of_value val), (''unit'', JStr ''px'')]
                 else js_of_value val)
          else if format = simplified then
            (case val of
               Some (ColorValue r g b a) \<Rightarrow>
                 if resolvedType variable = COLOR then JStr (''#'' @ rgbToHex r g b)
                 else js_of_value val
             | _ \<Rightarrow> js_of_value val)
          else js_of_value val)"

subsection \<open>The theme of \<^verbatim>\<open>exportAsTailwind\<close> (lines 675-754)\<close>

datatype themeSection =
    colors | spacing | fontSize | fontFamily | fontWeight | lineHeight | borderRadius
  | boxShadow | opacity | zIndex

type_synonym themeConfig = "themeSection \<Rightarrow> (string \<times> js) list"

definition theme_set :: "themeSection \<Rightarrow> string \<Rightarrow> js \<Rightarrow> themeConfig \<Rightarrow> themeConfig" where
  "theme_set sec key v themeConfig = themeConfig(sec := AList.update key v (themeConfig sec))"

text \<open>Lines 706-707 and 716.\<close>

definition tailwindKey_of :: "string \<Rightarrow> string" where
  "tailwindKey_of name = toLowerCase (join ''-'' (split CHR ''/'' name))"

text \<open>Lines 726-737: the section of a FLOAT variable, from its lower-cased name.\<close>

definition floatSection :: "string \<Rightarrow> themeSection" where
  "floatSection lowerName =
     (if str_includes lowerName ''spacing'' \<or> str_includes lowerName ''space'' \<or>
         str_includes lowerName ''gap'' \<or> str_includes lowerName ''margin'' \<or>
         str_includes lowerName ''padding'' then spacing
      else if str_includes lowerName ''font'' \<and> str_includes lowerName ''size'' then fontSize
      else if str_includes lowerName ''radius'' \<or> str_includes lowerName ''rounded'' then
        borderRadius
      else spacing)"

text \<open>
  Lines 701-745: one variable of a collection, with the collection's first mode.
  \<open>String_of\<close> is the built-in conversion of a value to a string, as a template
  literal and \<^verbatim>\<open>String(value)\<close> apply it; it is a parameter.
\<close>

definition tailwind_variable ::
  "(VariableValue option \<Rightarrow> string) \<Rightarrow> host \<Rightarrow> Mode \<Rightarrow> Variable \<Rightarrow> themeConfig \<Rightarrow> themeConfig"
where
  "tailwind_variable String_of h mode variable themeConfig =
     (let val = map_of (valuesByMode variable) (modeId mode);
          tailwindKey = tailwindKey_of (variable_name variable)
      in if resolvedType variable = COLOR then
           (case val of
              Some (VariableAlias aliasId) \<Rightarrow>
                (case find (\<lambda>v. variable_id v = aliasId) (variables h) of
                   Some target \<Rightarrow>
                     theme_set colors tailwindKey
                       (JStr (''{colors.'' @ tailwindKey_of (variable_name target) @ ''}''))
                       themeConfig
                 | None \<Rightarrow> themeConfig)
            | Some (ColorValue r g b a) \<Rightarrow>
                theme_set colors tailwindKey (JStr (''#'' @ rgbToHex r g b)) themeConfig
            | _ \<Rightarrow> themeConfig)
         else if resolvedType variable = FLOAT then
           theme_set (floatSection (toLowerCase (variable_name variable))) tailwindKey
             (JStr (String_of val @ ''px'')) themeConfig
         else if resolvedType variable = STRING then
           (let lowerName = toLowerCase (variable_name variable)
            in if str_includes lowerName ''font'' \<and>
                  (str_includes lowerName ''family'' \<or> str_includes lowerName ''face'') then
                 theme_set fontFamily tailwindKey
                   (case val of
                      Some (StringValue s) \<Rightarrow> JArr [JStr s]
                    | _ \<Rightarrow> JStr (String_of val))
                   themeConfig
               else if str_includes lowerName ''shadow'' then
                 theme_set boxShadow tailwindKey (JStr (String_of val)) themeConfig
               else themeConfig)
         else themeConfig)"

text \<open>Lines 694-747: the loop over the collections; a collection without a mode is skipped.\<close>

definition tailwind_collection ::
  "(VariableValue option \<Rightarrow> string) \<Rightarrow> host \<Rightarrow> VariableCollection \<Rightarrow> themeConfig \<Rightarrow> themeConfig"
where
  "tailwind_collection String_of h collection themeConfig =
     (let collectionVariables =
            filter (\<lambda>v. variableCollectionId v = collection_id collection) (variables h)
      in case collection_modes collection of
           [] \<Rightarrow> themeConfig
         | mode # others \<Rightarrow>
             fold (tailwind_variable String_of h mode) collectionVariables themeConfig)"

definition tailwind_theme :: "(VariableValue option \<Rightarrow> string) \<Rightarrow> host \<Rightarrow> themeConfig" where
  "tailwind_theme String_of h =
     fold (tailwind_collection String_of h) (collections h) (\<lambda>sec. [])"

section \<open>An instance of the parameters\<close>

text \<open>
  To run the model on examples the parameters are instantiated: \<open>parseDecimal\<close> reads
  an optional sign and the longest run of decimal digits, with an optional fraction,
  as \<^verbatim>\<open>parseFloat\<close> does on such strings (it is NaN when no digit comes first);
  \<open>rgbOfHex\<close> reads \<^verbatim>\<open>#RRGGBB\<close>; the host accepts a value whose shape is the one of
  the variable's resolved type, an alias to a variable of the same resolved type,
  and every new variable.
\<close>

definition digit_value :: "char \<Rightarrow> nat option" where
  "digit_value c = map_of (zip ''0123456789'' [0 ..< 10]) c"

definition hex_value :: "char \<Rightarrow> nat option" where
  "hex_value c =
     map_of (zip ''0123456789abcdefABCDEF'' ([0 ..< 16] @ [10 ..< 16])) c"

fun digits_prefix :: "string \<Rightarrow> nat list \<times> string" where
  "digits_prefix [] = ([], [])"
| "digits_prefix (c # cs) =
     (case digit_value c of
        None \<Rightarrow> ([], c # cs)
      | Some d \<Rightarrow> (case digits_prefix cs of (ds, rest) \<Rightarrow> (d # ds, rest)))"

definition nat_of_digits :: "nat list \<Rightarrow> nat" where
  "nat_of_digits ds = foldl (\<lambda>acc d. 10 * acc + d) 0 ds"

definition parseUnsigned :: "string \<Rightarrow> rat option" where
  "parseUnsigned s =
     (case digits_prefix s of
        (ds, rest) \<Rightarrow>
          (let fs = (case rest of
                       c # cs \<Rightarrow> if c = CHR ''.'' then fst (digits_prefix cs) else []
                     | [] \<Rightarrow> [])
           in if ds = [] \<and> fs = [] then None
              else Some (of_nat (nat_of_digits ds) +
                         of_nat (nat_of_digits fs) / of_nat (10 ^ length fs))))"

definition parseDecimal :: "string \<Rightarrow> rat option" where
  "parseDecimal s =
     (case dropWhile (\<lambda>c. c = CHR '' '') s of
        [] \<Rightarrow> None
      | c # cs \<Rightarrow>
          if c = CHR ''-'' then map_option uminus (parseUnsigned cs)
          else if c = CHR ''+'' then parseUnsigned cs
          else parseUnsigned (c # cs))"

definition hex_pair :: "char \<Rightarrow> char \<Rightarrow> rat option" where
  "hex_pair a b =
     (case (hex_value a, hex_value b) of
        (Some x, Some y) \<Rightarrow> Some (of_nat (16 * x + y) / 255)
      | _ \<Rightarrow> None)"

definition rgbOfHex :: "string \<Rightarrow> js option" where
  "rgbOfHex s =
     (case s of
        [h, r1, r2, g1, g2, b1, b2] \<Rightarrow>
          (case (hex_pair r1 r2, hex_pair g1 g2, hex_pair b1 b2) of
             (Some r, Some g, Some b) \<Rightarrow>
               if h = CHR ''#'' then Some (JObj [(''r'', JNum r), (''g'', JNum g), (''b'', JNum b)])
               else None
           | _ \<Rightarrow> None)
      | _ \<Rightarrow> None)"

definition typedValue :: "VariableResolvedDataType \<Rightarrow> js \<Rightarrow> VariableValue option" where
  "typedValue rt v =
     (case (rt, v) of
        (BOOLEAN, JBool b) \<Rightarrow> Some (BooleanValue b)
      | (FLOAT, JNum n) \<Rightarrow> Some (FloatValue n)
      | (STRING, JStr s) \<Rightarrow> Some (StringValue s)
      | (COLOR, JObj props) \<Rightarrow>
          (case (get_property v ''r'', get_property v ''g'', get_property v ''b'') of
             (JNum r, JNum g, JNum b) \<Rightarrow>
               (case get_property v ''a'' of
                  JNum a \<Rightarrow> Some (ColorValue r g b (Some a))
                | JUndefined \<Rightarrow> Some (ColorValue r g b None)
                | _ \<Rightarrow> None)
           | _ \<Rightarrow> None)
      | _ \<Rightarrow> None)"

definition typed_host :: externals where
  "typed_host =
     \<lparr> parseFloat = parseDecimal,
       figma_util_rgb = rgbOfHex,
       createVariable_throws = (\<lambda>h name cid type. False),
       toVariableValue = typedValue,
       alias_throws = (\<lambda>variable target. resolvedType variable \<noteq> resolvedType target) \<rparr>"

definition empty_host :: host where
  "empty_host = \<lparr> collections = [], variables = [], nextId = 0, events = [] \<rparr>"

section \<open>Simplified export of a colour\<close>

text \<open>
  A channel as the code computes it, \<^verbatim>\<open>Math.round(r * 255)\<close> with the product of
  doubles, and its two upper-case hexadecimal digits.
\<close>

definition upper_hex_char :: "nat \<Rightarrow> char" where
  "upper_hex_char d = ''0123456789ABCDEF'' ! d"

definition hexByte :: "nat \<Rightarrow> string" where
  "hexByte n = [upper_hex_char (n div 16), upper_hex_char (n mod 16)]"

definition channel :: "rat \<Rightarrow> nat" where
  "channel x = nat (Math_round (times_double x 255))"

text \<open>The digits of \<open>hex_digits\<close>, one at a time.\<close>

lemma hex_digits_step: "16 \<le> n \<Longrightarrow> hex_digits n = hex_digits (n div 16) @ [hex_char (n mod 16)]"
  by (subst hex_digits.simps) simp

lemma hex_digits_small: "n < 16 \<Longrightarrow> hex_digits n = [hex_char n]"
  by (subst hex_digits.simps) simp

lemma toUpperCase_hex_table:
  "map toUpperCase_char ''0123456789abcdef'' = ''0123456789ABCDEF''"
  by (simp add: toUpperCase_char_def)

lemma toUpperCase_hex_char: "d < 16 \<Longrightarrow> toUpperCase_char (hex_char d) = upper_hex_char d"
proof -
  assume d: "d < 16"
  have "toUpperCase_char (hex_char d) = map toUpperCase_char ''0123456789abcdef'' ! d"
    unfolding hex_char_def using d by (subst nth_map) simp_all
  then show ?thesis
    by (simp only: toUpperCase_hex_table upper_hex_char_def)
qed

lemma hex_digits_cons:
  assumes "0 < m" "d < 16"
  shows "hex_digits (16 * m + d) = hex_digits m @ [hex_char d]"
proof -
  have "16 \<le> 16 * m + d" using assms by simp
  moreover have "(16 * m + d) div 16 = m" "(16 * m + d) mod 16 = d" using assms by simp_all
  ultimately show ?thesis using hex_digits_step [of "16 * m + d"] by simp
qed

lemma hex_digits_nested:
  assumes "r1 < 16" "r0 < 16" "g1 < 16" "g0 < 16" "b1 < 16" "b0 < 16"
  shows "hex_digits (16 * (16 * (16 * (16 * (16 * (16 * 1 + r1) + r0) + g1) + g0) + b1) + b0) =
         [hex_char 1, hex_char r1, hex_char r0, hex_char g1, hex_char g0, hex_char b1, hex_char b0]"
  apply (subst hex_digits_cons, simp, rule assms)
  apply (subst hex_digits_cons, simp, rule assms)
  apply (subst hex_digits_cons, simp, rule assms)
  apply (subst hex_digits_cons, simp, rule assms)
  apply (subst hex_digits_cons, simp, rule assms)
  apply (subst hex_digits_cons, simp, rule assms)
  apply (simp add: hex_digits_small)
  done

lemma hex_digits_rgb:
  assumes "R \<le> 255" "G \<le> 255" "B \<le> 255"
  shows "hex_digits (16777216 + R * 65536 + G * 256 + B) =
         [hex_char 1, hex_char (R div 16), hex_char (R mod 16), hex_char (G div 16), hex_char (G mod 16),
          hex_char (B div 16), hex_char (B mod 16)]"
proof -
  have lt: "R div 16 < 16" "R mod 16 < 16" "G div 16 < 16" "G mod 16 < 16" "B div 16 < 16" "B mod 16 < 16"
    using assms by simp_all
  have "16777216 + R * 65536 + G * 256 + B =
        16777216 + (16 * (R div 16) + R mod 16) * 65536 + (16 * (G div 16) + G mod 16) * 256
          + (16 * (B div 16) + B mod 16)"
    by simp
  also have "\<dots> = 16 * (16 * (16 * (16 * (16 * (16 * 1 + R div 16) + R mod 16) + G div 16) + G mod 16)
                 + B div 16) + B mod 16"
    by (simp add: algebra_simps)
  finally have eq: "16777216 + R * 65536 + G * 256 + B =
      16 * (16 * (16 * (16 * (16 * (16 * 1 + R div 16) + R mod 16) + G div 16) + G mod 16)
                 + B div 16) + B mod 16" .
  show ?thesis
    by (simp only: eq hex_digits_nested [OF lt])
qed

lemma toInt32_id: "- 2147483648 \<le> x \<Longrightarrow> x < 2147483648 \<Longrightarrow> toInt32 x = x"
  by (simp add: toInt32_def)

lemma shiftLeft_small:
  assumes "0 \<le> x" "x * 2 ^ n < 2147483648" "n < 32"
  shows "shiftLeft x n = x * 2 ^ n"
proof -
  have "(1::int) \<le> 2 ^ n" by simp
  then have "x * 1 \<le> x * 2 ^ n" using assms(1) by (intro mult_left_mono) auto
  then have "x < 2147483648" using assms(2) by simp
  then have "toInt32 x = x" using assms(1) by (intro toInt32_id) auto
  moreover have "0 \<le> x * 2 ^ n" using assms(1) by simp
  then have "toInt32 (x * 2 ^ n) = x * 2 ^ n"
    using assms(2) by (intro toInt32_id) auto
  moreover have "n mod 32 = n" using assms(3) by simp
  ultimately show ?thesis by (simp add: shiftLeft_def)
qed

lemma toString16_int: "toString16 (int n) = hex_digits n"
  by (simp add: toString16_def)

lemma round_half_even_le:
  assumes "z \<le> of_int k"
  shows "round_half_even z \<le> k"
proof -
  have f: "\<lfloor>z\<rfloor> \<le> k" using assms by (simp add: floor_le_iff)
  show ?thesis
  proof (cases "\<lfloor>z\<rfloor> = k")
    case True
    then have "of_int k \<le> z" by (metis of_int_floor_le)
    with assms have "z = of_int k" by simp
    then show ?thesis by (simp add: round_half_even_def)
  next
    case False
    with f have "\<lfloor>z\<rfloor> + 1 \<le> k" by simp
    with f show ?thesis by (simp add: round_half_even_def Let_def)
  qed
qed

lemma round_half_even_nonneg: "0 \<le> z \<Longrightarrow> 0 \<le> round_half_even z"
  by (simp add: round_half_even_def Let_def)

lemma exponent_le_7:
  assumes "0 < x" "x \<le> 255"
  shows "exponent x \<le> 7"
proof (cases "1 \<le> x")
  case True
  have "\<lfloor>x\<rfloor> \<le> \<lfloor>255::rat\<rfloor>" using assms(2) by (rule floor_mono)
  then have "nat \<lfloor>x\<rfloor> \<le> nat \<lfloor>255::rat\<rfloor>" by (rule nat_mono)
  then have "nat \<lfloor>x\<rfloor> \<le> 255" by simp
  then have "floorlog 2 (nat \<lfloor>x\<rfloor>) \<le> floorlog 2 255" by (rule floorlog_mono)
  also have "floorlog 2 255 = 8" by (simp add: compute_floorlog)
  finally show ?thesis using True by (simp add: exponent_def)
next
  case False
  then show ?thesis by (simp add: exponent_def)
qed

text \<open>The double nearest to a number between 0 and 255 lies between 0 and 255.\<close>

lemma toDouble_range:
  assumes "0 \<le> x" "x \<le> 255"
  shows "0 \<le> toDouble x" "toDouble x \<le> 255"
proof -
  have "0 \<le> toDouble x \<and> toDouble x \<le> 255"
  proof (cases "x = 0")
    case True
    then show ?thesis by (simp add: toDouble_def)
  next
    case False
    with assms(1) have pos: "0 < x" by simp
    define m where "m = max (exponent x) (- 1022) - 52"
    define n where "n = nat (- m)"
    have "exponent x \<le> 7" by (rule exponent_le_7 [OF pos assms(2)])
    then have m: "m \<le> 0" by (simp add: m_def)
    then have mn: "m = - int n" by (simp add: n_def)
    have q: "(2::rat) powi m = 1 / 2 ^ n"
      unfolding mn by (simp add: power_int_minus_divide)
    have ax: "\<bar>x\<bar> = x" "sgn x = 1" using pos by simp_all
    have "toDouble x = 2 powi m * of_int (round_half_even (x / 2 powi m))"
      using False unfolding toDouble_def Let_def ax m_def by simp
    then have td: "toDouble x = (1 / 2 ^ n) * of_int (round_half_even (x * 2 ^ n))"
      unfolding q by simp
    have "x * 2 ^ n \<le> 255 * 2 ^ n" using assms(2) by simp
    also have "(255::rat) * 2 ^ n = of_int (255 * 2 ^ n)" by simp
    finally have "round_half_even (x * 2 ^ n) \<le> 255 * 2 ^ n" by (rule round_half_even_le)
    then have "(of_int (round_half_even (x * 2 ^ n)) :: rat) \<le> of_int (255 * 2 ^ n)"
      by (simp only: of_int_le_iff)
    then have "(1 / 2 ^ n) * (of_int (round_half_even (x * 2 ^ n)) :: rat) \<le> (1 / 2 ^ n) * of_int (255 * 2 ^ n)"
      by (intro mult_left_mono) simp_all
    then have up: "toDouble x \<le> 255" by (simp add: td)
    have "0 \<le> x * 2 ^ n" using assms(1) by simp
    then have "0 \<le> round_half_even (x * 2 ^ n)" by (rule round_half_even_nonneg)
    then have "0 \<le> toDouble x" by (simp add: td)
    with up show ?thesis by simp
  qed
  then show "0 \<le> toDouble x" "toDouble x \<le> 255" by simp_all
qed

lemma Math_round_channel:
  assumes "0 \<le> x" "x \<le> 1"
  shows "0 \<le> Math_round (times_double x 255)" "Math_round (times_double x 255) \<le> 255"
    "\<bar>of_int (Math_round (times_double x 255)) - times_double x 255\<bar> \<le> 1 / 2"
proof -
  have x: "0 \<le> x * 255" "x * 255 \<le> 255" using assms by simp_all
  note d = toDouble_range [OF x, folded times_double_def]
  have "0 \<le> times_double x 255 + 1 / 2" using d(1) by simp
  then show "0 \<le> Math_round (times_double x 255)" by (simp add: Math_round_def)
  have "times_double x 255 + 1 / 2 < 256" using d(2) by simp
  then have "\<lfloor>times_double x 255 + 1 / 2\<rfloor> < 256" by (simp add: floor_less_iff)
  then show "Math_round (times_double x 255) \<le> 255" by (simp add: Math_round_def)
  show "\<bar>of_int (Math_round (times_double x 255)) - times_double x 255\<bar> \<le> 1 / 2"
    unfolding Math_round_def by linarith
qed

lemma rgbToHex_bytes:
  assumes "0 \<le> r" "r \<le> 1" "0 \<le> g" "g \<le> 1" "0 \<le> b" "b \<le> 1"
  shows "rgbToHex r g b = hexByte (channel r) @ hexByte (channel g) @ hexByte (channel b)"
proof -
  let ?R = "Math_round (times_double r 255)" and ?G = "Math_round (times_double g 255)"
    and ?B = "Math_round (times_double b 255)"
  note R = Math_round_channel(1,2) [OF assms(1,2)]
  note G = Math_round_channel(1,2) [OF assms(3,4)]
  note B = Math_round_channel(1,2) [OF assms(5,6)]
  have s1: "shiftLeft 1 24 = 16777216" by (simp add: shiftLeft_small)
  have s2: "shiftLeft ?R 16 = ?R * 65536" using R by (simp add: shiftLeft_small)
  have s3: "shiftLeft ?G 8 = ?G * 256" using G by (simp add: shiftLeft_small)
  have sum: "shiftLeft 1 24 + shiftLeft ?R 16 + shiftLeft ?G 8 + ?B
             = int (16777216 + channel r * 65536 + channel g * 256 + channel b)"
    using R G B by (simp add: s1 s2 s3 channel_def)
  have le: "channel r \<le> 255" "channel g \<le> 255" "channel b \<le> 255"
    using R G B by (simp_all add: channel_def)
  have lt: "channel r div 16 < 16" "channel g div 16 < 16" "channel b div 16 < 16"
    using le by simp_all
  have "rgbToHex r g b =
        toUpperCase (drop 1 (hex_digits (16777216 + channel r * 65536 + channel g * 256 + channel b)))"
    unfolding rgbToHex_def Let_def sum toString16_int ..
  also have "\<dots> = hexByte (channel r) @ hexByte (channel g) @ hexByte (channel b)"
    using lt by (simp add: hex_digits_rgb [OF le] toUpperCase_def hexByte_def toUpperCase_hex_char)
  finally show ?thesis .
qed


lemma hexByte_digits: "n \<le> 255 \<Longrightarrow> set (hexByte n) \<subseteq> set ''0123456789ABCDEF''"
proof -
  assume "n \<le> 255"
  then have a: "n div 16 < length ''0123456789ABCDEF''"
    and b: "n mod 16 < length ''0123456789ABCDEF''"
    by simp_all
  have "''0123456789ABCDEF'' ! (n div 16) \<in> set ''0123456789ABCDEF''"
    "''0123456789ABCDEF'' ! (n mod 16) \<in> set ''0123456789ABCDEF''"
    using nth_mem [OF a] nth_mem [OF b] by blast+
  then show ?thesis by (simp add: hexByte_def upper_hex_char_def)
qed

definition red_variable :: Variable where
  "red_variable =
     \<lparr> variable_id = 3, variable_name = ''Color/Primary'', variableCollectionId = 0,
       resolvedType = COLOR, valuesByMode = [(1, ColorValue 1 0 0 (Some 1))] \<rparr>"

text \<open>
  Claim C7 says that each channel is rounded to the nearest integer.  The code
  rounds the product of doubles \<^verbatim>\<open>r * 255\<close>, which is itself rounded: for the channel
  \<open>r = 282578800148737 / 2 ^ 57\<close>, a double between 0 and 1, the exact product is
  \<open>1 / 2 - 1 / 2 ^ 57\<close>, whose nearest integer is 0, while the product of doubles is
  \<open>1 / 2\<close> and the export writes \<^verbatim>\<open>01\<close>.
\<close>

theorem simplified_color_nearest_counterexample:
  "resolvedType red_variable = COLOR \<and>
   (0::rat) \<le> 282578800148737 / 2 ^ 57 \<and> (282578800148737 / 2 ^ 57 :: rat) \<le> 1 \<and>
   convertValueForFormat (Some (ColorValue (282578800148737 / 2 ^ 57) 0 0 None)) red_variable
     simplified = JStr ''#010000'' \<and>
   \<bar>0 - 282578800148737 / 2 ^ 57 * 255\<bar> < (1 / 2 :: rat) \<and>
   (1 / 2 :: rat) < \<bar>1 - 282578800148737 / 2 ^ 57 * 255\<bar> \<and>
   times_double (282578800148737 / 2 ^ 57) 255 = 1 / 2"
proof -
  have t: "resolvedType red_variable = COLOR" by (simp add: red_variable_def)
  have r: "(0::rat) \<le> 282578800148737 / 2 ^ 57" "(282578800148737 / 2 ^ 57 :: rat) \<le> 1"
    by simp_all
  have z: "(0::rat) \<le> 0" "(0::rat) \<le> 1" by simp_all
  have c1: "hexByte (channel (282578800148737 / 2 ^ 57)) = ''01''"
    and c0: "hexByte (channel 0) = ''00''"
    and p: "times_double (282578800148737 / 2 ^ 57) 255 = 1 / 2"
    by code_simp+
  have "rgbToHex (282578800148737 / 2 ^ 57) 0 0 = ''010000''"
    unfolding rgbToHex_bytes [OF r z z] c1 c0 by simp
  then have conv: "convertValueForFormat (Some (ColorValue (282578800148737 / 2 ^ 57) 0 0 None))
      red_variable simplified = JStr ''#010000''"
    using t by (simp add: convertValueForFormat_def)
  have n: "\<bar>0 - 282578800148737 / 2 ^ 57 * 255\<bar> < (1 / 2 :: rat)"
    "(1 / 2 :: rat) < \<bar>1 - 282578800148737 / 2 ^ 57 * 255\<bar>"
    by simp_all
  show ?thesis using t r conv n p by (intro conjI)
qed

text \<open>
  Claim C7, amended.  For a COLOR variable whose value in a mode is a colour with
  channels \<open>r\<close>, \<open>g\<close>, \<open>b\<close> between 0 and 1, the simplified export renders the value as
  \<^verbatim>\<open>#\<close> followed by exactly six upper-case hexadecimal digits, two per channel; the
  number a channel is written as is an integer of 0-255, the one nearest to the
  product of doubles \<^verbatim>\<open>r * 255\<close> (a tie going upwards); the alpha channel \<open>a\<close>,
  present or not, is not emitted.
\<close>

theorem simplified_color_is_hex_of_double_product:
  assumes "resolvedType variable = COLOR"
    and "0 \<le> r" "r \<le> 1" "0 \<le> g" "g \<le> 1" "0 \<le> b" "b \<le> 1"
  shows "convertValueForFormat (Some (ColorValue r g b a)) variable simplified =
           JStr (CHR ''#'' # hexByte (channel r) @ hexByte (channel g) @ hexByte (channel b)) \<and>
         length (hexByte (channel r) @ hexByte (channel g) @ hexByte (channel b)) = 6 \<and>
         set (hexByte (channel r) @ hexByte (channel g) @ hexByte (channel b))
           \<subseteq> set ''0123456789ABCDEF'' \<and>
         channel r \<le> 255 \<and> channel g \<le> 255 \<and> channel b \<le> 255 \<and>
         \<bar>of_nat (channel r) - times_double r 255\<bar> \<le> 1 / 2 \<and>
         \<bar>of_nat (channel g) - times_double g 255\<bar> \<le> 1 / 2 \<and>
         \<bar>of_nat (channel b) - times_double b 255\<bar> \<le> 1 / 2"
proof -
  note R = Math_round_channel [OF assms(2,3)]
  note G = Math_round_channel [OF assms(4,5)]
  note B = Math_round_channel [OF assms(6,7)]
  have le: "channel r \<le> 255" "channel g \<le> 255" "channel b \<le> 255"
    using R(1,2) G(1,2) B(1,2) by (simp_all add: channel_def)
  have near: "\<bar>of_nat (channel r) - times_double r 255\<bar> \<le> 1 / 2"
    "\<bar>of_nat (channel g) - times_double g 255\<bar> \<le> 1 / 2"
    "\<bar>of_nat (channel b) - times_double b 255\<bar> \<le> 1 / 2"
    using R G B by (simp_all add: channel_def)
  have conv: "convertValueForFormat (Some (ColorValue r g b a)) variable simplified =
           JStr (CHR ''#'' # hexByte (channel r) @ hexByte (channel g) @ hexByte (channel b))"
    using assms(1) by (simp add: convertValueForFormat_def rgbToHex_bytes [OF assms(2-7)])
  have len: "length (hexByte (channel r) @ hexByte (channel g) @ hexByte (channel b)) = 6"
    by (simp add: hexByte_def)
  have digits: "set (hexByte (channel r) @ hexByte (channel g) @ hexByte (channel b))
           \<subseteq> set ''0123456789ABCDEF''"
    using hexByte_digits [OF le(1)] hexByte_digits [OF le(2)] hexByte_digits [OF le(3)]
    by (simp only: set_append Un_subset_iff simp_thms)
  show ?thesis
    using conv len digits le near by (intro conjI)
qed

text \<open>The colour \<open>r = 1, g = 0, b = 0\<close> with an alpha channel renders as \<^verbatim>\<open>#FF0000\<close>.\<close>

theorem simplified_color_is_hex_of_double_product_witness:
  "resolvedType red_variable = COLOR \<and>
   convertValueForFormat (map_of (valuesByMode red_variable) 1) red_variable simplified =
     JStr ''#FF0000''"
proof -
  have t: "resolvedType red_variable = COLOR" by (simp add: red_variable_def)
  have v: "map_of (valuesByMode red_variable) 1 = Some (ColorValue 1 0 0 (Some 1))"
    by (simp add: red_variable_def)
  have c1: "hexByte (channel 1) = ''FF''" and c0: "hexByte (channel 0) = ''00''"
    by code_simp+
  have "convertValueForFormat (Some (ColorValue 1 0 0 (Some 1))) red_variable simplified =
          JStr (CHR ''#'' # hexByte (channel 1) @ hexByte (channel 0) @ hexByte (channel 0))"
    using simplified_color_is_hex_of_double_product [OF t, of 1 0 0 "Some 1"] by simp
  then show ?thesis using t by (simp only: v c1 c0) simp
qed

section \<open>Routing of FLOAT variables in the Tailwind theme\<close>

text \<open>
  For the examples: the conversion of a value to a string (integers in decimal; the
  fraction of a number is not printed), a FLOAT variable with a value in two modes,
  and a host with one collection of two modes.
\<close>

definition String_of_value :: "VariableValue option \<Rightarrow> string" where
  "String_of_value val =
     (case val of
        None \<Rightarrow> ''undefined''
      | Some (BooleanValue b) \<Rightarrow> (if b then ''true'' else ''false'')
      | Some (StringValue s) \<Rightarrow> s
      | Some (FloatValue n) \<Rightarrow> (if n < 0 then ''-'' else []) @ show_nat (nat \<lfloor>\<bar>n\<bar>\<rfloor>)
      | Some other \<Rightarrow> ''[object Object]'')"

definition float_variable :: "nat \<Rightarrow> string \<Rightarrow> rat \<Rightarrow> Variable" where
  "float_variable i name n =
     \<lparr> variable_id = i, variable_name = name, variableCollectionId = 0,
       resolvedType = FLOAT, valuesByMode = [(1, FloatValue n), (2, FloatValue (n + 1))] \<rparr>"

definition tokens_collection :: VariableCollection where
  "tokens_collection =
     \<lparr> collection_id = 0, collection_name = ''Tokens'',
       collection_modes = [\<lparr> modeId = 1, mode_name = ''Light'' \<rparr>,
                           \<lparr> modeId = 2, mode_name = ''Dark'' \<rparr>] \<rparr>"

definition tailwind_host :: "Variable list \<Rightarrow> host" where
  "tailwind_host vs = \<lparr> collections = [tokens_collection], variables = vs, nextId = 100, events = [] \<rparr>"

text \<open>The first group of keywords of the specification.\<close>

definition spacingWord :: "string \<Rightarrow> bool" where
  "spacingWord lowerName =
     (str_includes lowerName ''spacing'' \<or> str_includes lowerName ''space'' \<or>
      str_includes lowerName ''gap'' \<or> str_includes lowerName ''margin'' \<or>
      str_includes lowerName ''padding'')"

text \<open>
  Read clause by clause, claim C9 says that a name containing \<^verbatim>\<open>radius\<close> goes to
  \<^verbatim>\<open>borderRadius\<close>.  The FLOAT variable \<^verbatim>\<open>Padding/Radius\<close> contains it and is put
  under \<^verbatim>\<open>spacing\<close>: the tests are made in order and \<^verbatim>\<open>padding\<close> comes first.
\<close>

theorem tailwind_radius_counterexample:
  "str_includes (toLowerCase ''Padding/Radius'') ''radius'' \<and>
   tailwind_theme String_of_value (tailwind_host [float_variable 3 ''Padding/Radius'' 8]) borderRadius = [] \<and>
   tailwind_theme String_of_value (tailwind_host [float_variable 3 ''Padding/Radius'' 8]) spacing =
     [(''padding-radius'', JStr ''8px'')]"
  by code_simp

text \<open>
  Claim C9, amended.  In the Tailwind export every FLOAT variable is stored under
  its key with the value of the collection's first mode followed by \<^verbatim>\<open>px\<close>, in
  the section chosen from its lower-cased name by the first test that holds, in
  this order: it contains \<^verbatim>\<open>spacing\<close>, \<^verbatim>\<open>space\<close>, \<^verbatim>\<open>gap\<close>, \<^verbatim>\<open>margin\<close> or \<^verbatim>\<open>padding\<close>
  (spacing); it contains both \<^verbatim>\<open>font\<close> and \<^verbatim>\<open>size\<close> (fontSize); it contains
  \<^verbatim>\<open>radius\<close> or \<^verbatim>\<open>rounded\<close> (borderRadius); otherwise spacing.  Only the first
  mode of a collection is read.
\<close>

theorem tailwind_float_routing:
  assumes "resolvedType variable = FLOAT"
  shows "tailwind_variable String_of h mode variable themeConfig =
           theme_set (floatSection (toLowerCase (variable_name variable)))
             (tailwindKey_of (variable_name variable))
             (JStr (String_of (map_of (valuesByMode variable) (modeId mode)) @ ''px'')) themeConfig \<and>
         (spacingWord (toLowerCase (variable_name variable)) \<longrightarrow>
            floatSection (toLowerCase (variable_name variable)) = spacing) \<and>
         (\<not> spacingWord (toLowerCase (variable_name variable)) \<and>
          str_includes (toLowerCase (variable_name variable)) ''font'' \<and>
          str_includes (toLowerCase (variable_name variable)) ''size'' \<longrightarrow>
            floatSection (toLowerCase (variable_name variable)) = fontSize) \<and>
         (\<not> spacingWord (toLowerCase (variable_name variable)) \<and>
          \<not> (str_includes (toLowerCase (variable_name variable)) ''font'' \<and>
             str_includes (toLowerCase (variable_name variable)) ''size'') \<and>
          (str_includes (toLowerCase (variable_name variable)) ''radius'' \<or>
           str_includes (toLowerCase (variable_name variable)) ''rounded'') \<longrightarrow>
            floatSection (toLowerCase (variable_name variable)) = borderRadius) \<and>
         (\<not> spacingWord (toLowerCase (variable_name variable)) \<and>
          \<not> (str_includes (toLowerCase (variable_name variable)) ''font'' \<and>
             str_includes (toLowerCase (variable_name variable)) ''size'') \<and>
          \<not> str_includes (toLowerCase (variable_name variable)) ''radius'' \<and>
          \<not> str_includes (toLowerCase (variable_name variable)) ''rounded'' \<longrightarrow>
            floatSection (toLowerCase (variable_name variable)) = spacing) \<and>
         tailwind_collection String_of h collection themeConfig =
           tailwind_collection String_of h
             (collection\<lparr>collection_modes := take 1 (collection_modes collection)\<rparr>) themeConfig"
proof -
  have step: "tailwind_variable String_of h mode variable themeConfig =
           theme_set (floatSection (toLowerCase (variable_name variable)))
             (tailwindKey_of (variable_name variable))
             (JStr (String_of (map_of (valuesByMode variable) (modeId mode)) @ ''px'')) themeConfig"
    using assms by (simp add: tailwind_variable_def Let_def)
  have first: "tailwind_collection String_of h collection themeConfig =
           tailwind_collection String_of h
             (collection\<lparr>collection_modes := take 1 (collection_modes collection)\<rparr>) themeConfig"
    by (cases "collection_modes collection") (simp_all add: tailwind_collection_def)
  show ?thesis
    using step first by (simp add: floatSection_def spacingWord_def)
qed

text \<open>The three names of the specification's example.\<close>

theorem tailwind_float_routing_witness:
  "resolvedType (float_variable 3 ''Radius/Button'' 8) = FLOAT \<and>
   tailwind_variable String_of_value (tailwind_host []) \<lparr> modeId = 1, mode_name = ''Light'' \<rparr>
     (float_variable 3 ''Radius/Button'' 8) (\<lambda>sec. []) =
     theme_set borderRadius ''radius-button'' (JStr ''8px'') (\<lambda>sec. []) \<and>
   floatSection (toLowerCase ''Spacing/Gap/Small'') = spacing \<and>
   floatSection (toLowerCase ''Opacity/Disabled'') = spacing"
proof -
  have t: "resolvedType (float_variable 3 ''Radius/Button'' 8) = FLOAT"
    by (simp add: float_variable_def)
  have n: "variable_name (float_variable 3 ''Radius/Button'' 8) = ''Radius/Button''"
    by (simp add: float_variable_def)
  have s: "floatSection (toLowerCase ''Radius/Button'') = borderRadius"
    and k: "tailwindKey_of ''Radius/Button'' = ''radius-button''"
    and v: "String_of_value (map_of (valuesByMode (float_variable 3 ''Radius/Button'' 8))
              (modeId \<lparr> modeId = 1, mode_name = ''Light'' \<rparr>)) @ ''px'' = ''8px''"
    and o: "floatSection (toLowerCase ''Spacing/Gap/Small'') = spacing"
      "floatSection (toLowerCase ''Opacity/Disabled'') = spacing"
    by code_simp+
  from tailwind_float_routing [OF t, of String_of_value "tailwind_host []"
      "\<lparr> modeId = 1, mode_name = ''Light'' \<rparr>" "\<lambda>sec. []"]
  have "tailwind_variable String_of_value (tailwind_host []) \<lparr> modeId = 1, mode_name = ''Light'' \<rparr>
     (float_variable 3 ''Radius/Button'' 8) (\<lambda>sec. []) =
     theme_set borderRadius ''radius-button'' (JStr ''8px'') (\<lambda>sec. [])"
    by (simp only: n s k v)
  then show ?thesis using t o by simp
qed


section \<open>Documents that flatten alike import alike\<close>

text \<open>
  The import reads a token tree only through \<open>flattenVariables\<close>, and a record only
  through its resolved type, its value and its alias fields.  Two documents with the
  same collection and mode names whose trees flatten to equivalent maps therefore
  leave the same host.  The relation \<open>F\<close> says how the legacy flags of the two runs
  are related.
\<close>

lemma flattenLoop_append:
  "flattenLoop prefix (xs @ ys) f r =
     (case flattenLoop prefix xs f r of (f', r') \<Rightarrow> flattenLoop prefix ys f' r')"
  by (induction xs arbitrary: f r) (auto split: js.splits prod.splits)

lemma flattenLoop_skip:
  assumes "\<not> (truthy v \<and> typeof v = ''object'')"
  shows "flattenLoop prefix ((key, v) # rest) f r = flattenLoop prefix rest f r"
  using assms by (cases v) simp_all

definition rec_equiv :: "JSONVariableValue \<Rightarrow> JSONVariableValue \<Rightarrow> bool" where
  "rec_equiv r r' =
     (variableType r = variableType r' \<and> dollar_value r = dollar_value r' \<and>
      targetCollection r = targetCollection r' \<and> targetVariable r = targetVariable r')"

definition maps_equiv :: "flat_map \<Rightarrow> flat_map \<Rightarrow> bool" where
  "maps_equiv m m' = list_all2 (\<lambda>x y. fst x = fst y \<and> rec_equiv (snd x) (snd y)) m m'"

definition flat_rel ::
  "(bool \<Rightarrow> bool \<Rightarrow> bool) \<Rightarrow> js_error + bool \<times> flat_map \<Rightarrow> js_error + bool \<times> flat_map \<Rightarrow> bool" where
  "flat_rel F a b = rel_sum (=) (\<lambda>x y. F (fst x) (fst y) \<and> maps_equiv (snd x) (snd y)) a b"

definition tree_rel :: "(bool \<Rightarrow> bool \<Rightarrow> bool) \<Rightarrow> js \<Rightarrow> js \<Rightarrow> bool" where
  "tree_rel F t t' =
     (\<forall>f f'. F f f' \<longrightarrow> flat_rel F (flattenVariables t [] f) (flattenVariables t' [] f'))"

definition modes_rel :: "(bool \<Rightarrow> bool \<Rightarrow> bool) \<Rightarrow> JSONCollection \<Rightarrow> JSONCollection \<Rightarrow> bool" where
  "modes_rel F ms ms' = list_all2 (\<lambda>a b. fst a = fst b \<and> tree_rel F (snd a) (snd b)) ms ms'"

definition doc_rel :: "(bool \<Rightarrow> bool \<Rightarrow> bool) \<Rightarrow> JSONRoot \<Rightarrow> JSONRoot \<Rightarrow> bool" where
  "doc_rel F data data' = list_all2 (\<lambda>x y. fst x = fst y \<and> modes_rel F (snd x) (snd y)) data data'"

definition run_rel ::
  "(bool \<Rightarrow> bool \<Rightarrow> bool) \<Rightarrow> (js_error \<times> host) + (bool \<times> host) \<Rightarrow>
   (js_error \<times> host) + (bool \<times> host) \<Rightarrow> bool" where
  "run_rel F a b = rel_sum (=) (\<lambda>x y. F (fst x) (fst y) \<and> snd x = snd y) a b"

lemma rec_equiv_refl: "rec_equiv r r"
  by (simp add: rec_equiv_def)

lemma maps_equiv_refl: "maps_equiv m m"
  by (simp add: maps_equiv_def list_all2_same rec_equiv_refl)

lemma maps_equiv_length: "maps_equiv m m' \<Longrightarrow> length m = length m'"
  by (simp add: maps_equiv_def list_all2_lengthD)

lemma pass2_variables_cong:
  assumes "maps_equiv m m'"
  shows "pass2_variables ext cid m n len h = pass2_variables ext cid m' n len h"
  using assms unfolding maps_equiv_def
proof (induction m m' arbitrary: n h rule: list_all2_induct)
  case Nil
  show ?case by simp
next
  case (Cons x xs y ys)
  obtain k r where x: "x = (k, r)" by (cases x)
  obtain k' r' where y: "y = (k', r')" by (cases y)
  from Cons.hyps(1) x y have k: "k' = k" and t: "variableType r' = variableType r"
    by (simp_all add: rec_equiv_def)
  show ?case
    unfolding x y k
    by (simp add: Let_def t Cons.IH split: option.splits sum.splits)
qed

lemma detectAlias_cong:
  assumes "rec_equiv r r'"
  shows "detectAlias r = detectAlias r'"
proof -
  have a: "targetCollection r = targetCollection r'" and b: "targetVariable r = targetVariable r'"
    and c: "dollar_value r = dollar_value r'"
    using assms by (simp_all add: rec_equiv_def)
  show ?thesis unfolding detectAlias_def a b c ..
qed

lemma pass3_item_cong:
  assumes "rec_equiv r r'"
  shows "pass3_item ext cid mid (k, r) n len h = pass3_item ext cid mid (k, r') n len h"
proof -
  have v: "dollar_value r = dollar_value r'" using assms by (simp add: rec_equiv_def)
  have t: "trySetValue ext variable mid r h1 = trySetValue ext variable mid r' h1" for variable h1
    unfolding trySetValue_def detectAlias_cong [OF assms] v ..
  show ?thesis
    unfolding pass3_item_def prod.case t ..
qed

lemma pass3_variables_cong:
  assumes "maps_equiv m m'"
  shows "pass3_variables ext cid mid m n len h = pass3_variables ext cid mid m' n len h"
  using assms unfolding maps_equiv_def
proof (induction m m' arbitrary: n h rule: list_all2_induct)
  case Nil
  show ?case by simp
next
  case (Cons x xs y ys)
  obtain k r where x: "x = (k, r)" by (cases x)
  obtain k' r' where y: "y = (k', r')" by (cases y)
  from Cons.hyps(1) x y have k: "k' = k" and e: "rec_equiv r r'" by simp_all
  show ?case
    unfolding x y k by (simp add: pass3_item_cong [OF e] Cons.IH)
qed

lemma firstModeTree_Cons: "firstModeTree ((m, t) # rest) = t"
  by (simp add: firstModeTree_def)

lemma tree_rel_undefined: "tree_rel F JUndefined JUndefined"
  by (simp add: tree_rel_def flat_rel_def flattenVariables_def)

lemma firstModeTree_rel:
  assumes "modes_rel F ms ms'"
  shows "tree_rel F (firstModeTree ms) (firstModeTree ms')"
proof (cases ms)
  case Nil
  with assms have "ms' = []" by (simp add: modes_rel_def)
  with Nil show ?thesis by (simp add: firstModeTree_def tree_rel_undefined)
next
  case (Cons a as)
  with assms obtain b bs where ms': "ms' = b # bs" and ab: "tree_rel F (snd a) (snd b)"
    by (auto simp: modes_rel_def list_all2_Cons1)
  show ?thesis
    using ab unfolding Cons ms' by (cases a; cases b) (simp add: firstModeTree_Cons)
qed

lemma run_rel_Inl: "run_rel F (Inl eh) (Inl eh)"
  by (simp add: run_rel_def)

lemma run_rel_InlD: "run_rel F (Inl eh) b \<Longrightarrow> b = Inl eh"
  unfolding run_rel_def by (cases b) simp_all

lemma run_rel_InrD:
  assumes "run_rel F (Inr (g, h1)) b"
  shows "\<exists>g'. b = Inr (g', h1) \<and> F g g'"
proof (cases b)
  case (Inl a)
  with assms show ?thesis by (simp add: run_rel_def)
next
  case (Inr x)
  obtain g' h' where x: "x = (g', h')" by (cases x)
  from assms Inr x have "F g g'" and "h' = h1" by (simp_all add: run_rel_def)
  with Inr x show ?thesis by (intro exI [of _ g'] conjI) simp_all
qed

lemma flat_rel_InlD: "flat_rel F (Inl e) b \<Longrightarrow> b = Inl e"
  unfolding flat_rel_def by (cases b) simp_all

lemma flat_rel_InrD:
  assumes "flat_rel F (Inr (g, m)) b"
  shows "\<exists>g' m'. b = Inr (g', m') \<and> F g g' \<and> maps_equiv m m'"
proof (cases b)
  case (Inl a)
  with assms show ?thesis by (simp add: flat_rel_def)
next
  case (Inr x)
  obtain g' m' where x: "x = (g', m')" by (cases x)
  from assms Inr x have "F g g'" and "maps_equiv m m'" by (simp_all add: flat_rel_def)
  with Inr x show ?thesis by (intro exI [of _ g'] exI [of _ m'] conjI) simp_all
qed

lemma pass2_cong:
  assumes "doc_rel F data data'" "F f f'"
  shows "run_rel F (pass2 ext data cm f h) (pass2 ext data' cm f' h)"
  using assms unfolding doc_rel_def
proof (induction data data' arbitrary: f f' h rule: list_all2_induct)
  case Nil
  then show ?case by (simp add: run_rel_def)
next
  case (Cons x xs y ys)
  obtain c ms where x: "x = (c, ms)" by (cases x)
  obtain c' ms' where y: "y = (c', ms')" by (cases y)
  from Cons.hyps(1) x y have c: "c' = c" and ms: "modes_rel F ms ms'" by simp_all
  show ?case
  proof (cases "map_of cm c")
    case None
    then show ?thesis unfolding x y c using Cons.IH [OF Cons.prems] by simp
  next
    case (Some cid)
    have fr: "flat_rel F (flattenVariables (firstModeTree ms) [] f)
                (flattenVariables (firstModeTree ms') [] f')"
      using firstModeTree_rel [OF ms] Cons.prems by (simp add: tree_rel_def)
    show ?thesis
    proof (cases "flattenVariables (firstModeTree ms) [] f")
      case (Inl e)
      from fr have "flattenVariables (firstModeTree ms') [] f' = Inl e"
        unfolding Inl by (rule flat_rel_InlD)
      with Inl Some show ?thesis unfolding x y c by (simp add: run_rel_def)
    next
      case (Inr gm)
      obtain g m where gm: "gm = (g, m)" by (cases gm)
      from fr Inr gm have "flat_rel F (Inr (g, m)) (flattenVariables (firstModeTree ms') [] f')"
        by simp
      from flat_rel_InrD [OF this] obtain g' m' where
        r': "flattenVariables (firstModeTree ms') [] f' = Inr (g', m')"
        and g: "F g g'" and m: "maps_equiv m m'"
        by blast
      have vars: "pass2_variables ext cid m 0 (length m) h = pass2_variables ext cid m' 0 (length m') h"
        using pass2_variables_cong [OF m] maps_equiv_length [OF m] by simp
      show ?thesis
      proof (cases "pass2_variables ext cid m' 0 (length m') h")
        case (Inl eh)
        then show ?thesis
          unfolding x y c using Some Inr gm r' vars by (simp add: run_rel_def)
      next
        case (Inr h')
        then show ?thesis
          unfolding x y c using Some \<open>flattenVariables (firstModeTree ms) [] f = Inr gm\<close> gm r' vars
            Cons.IH [OF g, of h'] by simp
      qed
    qed
  qed
qed

lemma pass3_modes_cong:
  assumes "modes_rel F ms ms'" "F f f'"
  shows "run_rel F (pass3_modes ext cid mm ms f h) (pass3_modes ext cid mm ms' f' h)"
  using assms unfolding modes_rel_def
proof (induction ms ms' arbitrary: f f' h rule: list_all2_induct)
  case Nil
  then show ?case by (simp add: run_rel_def)
next
  case (Cons x xs y ys)
  obtain k t where x: "x = (k, t)" by (cases x)
  obtain k' t' where y: "y = (k', t')" by (cases y)
  from Cons.hyps(1) x y have k: "k' = k" and t: "tree_rel F t t'" by simp_all
  show ?case
  proof (cases "modeMap_get mm k")
    case None
    then show ?thesis unfolding x y k using Cons.IH [OF Cons.prems] by simp
  next
    case (Some mid)
    have fr: "flat_rel F (flattenVariables t [] f) (flattenVariables t' [] f')"
      using t Cons.prems by (simp add: tree_rel_def)
    show ?thesis
    proof (cases "flattenVariables t [] f")
      case (Inl e)
      from fr have "flattenVariables t' [] f' = Inl e"
        unfolding Inl by (rule flat_rel_InlD)
      with Inl Some show ?thesis unfolding x y k by (simp add: run_rel_def)
    next
      case (Inr gm)
      obtain g m where gm: "gm = (g, m)" by (cases gm)
      from fr Inr gm have "flat_rel F (Inr (g, m)) (flattenVariables t' [] f')"
        by simp
      from flat_rel_InrD [OF this] obtain g' m' where
        r': "flattenVariables t' [] f' = Inr (g', m')"
        and g: "F g g'" and m: "maps_equiv m m'"
        by blast
      have vars: "pass3_variables ext cid mid m 0 (length m) h =
                  pass3_variables ext cid mid m' 0 (length m') h"
        using pass3_variables_cong [OF m] maps_equiv_length [OF m] by simp
      show ?thesis
        unfolding x y k using Some Inr gm r' vars Cons.IH [OF g] by simp
    qed
  qed
qed

lemma pass3_cong:
  assumes "doc_rel F data data'" "F f f'"
  shows "run_rel F (pass3 ext data cm mm f h) (pass3 ext data' cm mm f' h)"
  using assms unfolding doc_rel_def
proof (induction data data' arbitrary: f f' h rule: list_all2_induct)
  case Nil
  then show ?case by (simp add: run_rel_def)
next
  case (Cons x xs y ys)
  obtain c ms where x: "x = (c, ms)" by (cases x)
  obtain c' ms' where y: "y = (c', ms')" by (cases y)
  from Cons.hyps(1) x y have c: "c' = c" and ms: "modes_rel F ms ms'" by simp_all
  show ?case
  proof (cases "map_of cm c")
    case None
    then show ?thesis unfolding x y c using Cons.IH [OF Cons.prems] by simp
  next
    case (Some cid)
    have mr: "run_rel F (pass3_modes ext cid (map_of mm c) ms f h)
                (pass3_modes ext cid (map_of mm c) ms' f' h)"
      by (rule pass3_modes_cong [OF ms Cons.prems])
    show ?thesis
    proof (cases "pass3_modes ext cid (map_of mm c) ms f h")
      case (Inl eh)
      from mr have "pass3_modes ext cid (map_of mm c) ms' f' h = Inl eh"
        unfolding Inl by (rule run_rel_InlD)
      with Inl Some show ?thesis unfolding x y c by (simp add: run_rel_def)
    next
      case (Inr gh)
      obtain g h1 where gh: "gh = (g, h1)" by (cases gh)
      from mr Inr gh have "run_rel F (Inr (g, h1)) (pass3_modes ext cid (map_of mm c) ms' f' h)"
        by simp
      from run_rel_InrD [OF this] obtain g' where
        r': "pass3_modes ext cid (map_of mm c) ms' f' h = Inr (g', h1)" and g: "F g g'"
        by blast
      have l: "pass3 ext ((c, ms) # xs) cm mm f h = pass3 ext xs cm mm g h1"
        by (simp add: Some Inr gh)
      have r: "pass3 ext ((c, ms') # ys) cm mm f' h = pass3 ext ys cm mm g' h1"
        by (simp add: Some r')
      show ?thesis
        unfolding x y c l r by (rule Cons.IH [OF g])
    qed
  qed
qed

lemma modes_rel_names: "modes_rel F ms ms' \<Longrightarrow> map fst ms = map fst ms'"
  unfolding modes_rel_def by (induction ms ms' rule: list_all2_induct) simp_all

lemma pass1_cong:
  assumes "doc_rel F data data'"
  shows "pass1 data cm mm h = pass1 data' cm mm h"
  using assms unfolding doc_rel_def
proof (induction data data' arbitrary: cm mm h rule: list_all2_induct)
  case Nil
  show ?case by simp
next
  case (Cons x xs y ys)
  obtain c ms where x: "x = (c, ms)" by (cases x)
  obtain c' ms' where y: "y = (c', ms')" by (cases y)
  from Cons.hyps(1) x y have c: "c' = c" and ms: "map fst ms' = map fst ms"
    using modes_rel_names [of F ms ms'] by simp_all
  show ?case
    unfolding x y c by (simp add: ms Cons.IH split: prod.splits)
qed

lemma importPasses_cong:
  assumes "doc_rel F data data'" "F False False"
  shows "run_rel F (importPasses ext data h) (importPasses ext data' h)"
proof -
  obtain cm mm h1 where p1: "pass1 data [] [] h = (cm, mm, h1)" by (cases "pass1 data [] [] h")
  then have p1': "pass1 data' [] [] h = (cm, mm, h1)" using pass1_cong [OF assms(1)] by simp
  have r2: "run_rel F (pass2 ext data cm False h1) (pass2 ext data' cm False h1)"
    by (rule pass2_cong [OF assms])
  show ?thesis
  proof (cases "pass2 ext data cm False h1")
    case (Inl eh)
    from r2 have "pass2 ext data' cm False h1 = Inl eh"
      unfolding Inl by (rule run_rel_InlD)
    with Inl p1 p1' show ?thesis by (simp add: importPasses_def run_rel_def)
  next
    case (Inr gh)
    obtain g h2 where gh: "gh = (g, h2)" by (cases gh)
    from r2 Inr gh have "run_rel F (Inr (g, h2)) (pass2 ext data' cm False h1)"
      by simp
    from run_rel_InrD [OF this] obtain g' where
      r': "pass2 ext data' cm False h1 = Inr (g', h2)" and g: "F g g'"
      by blast
    show ?thesis
      using p1 p1' Inr gh r' pass3_cong [OF assms(1) g, of ext cm mm h2]
      by (simp add: importPasses_def)
  qed
qed

lemma handleImport_cong:
  assumes "doc_rel (=) data data'"
  shows "handleImport ext data h = handleImport ext data' h"
proof -
  have "run_rel (=) (importPasses ext data (log INFO ''Starting import...'' h))
          (importPasses ext data' (log INFO ''Starting import...'' h))"
    by (rule importPasses_cong [OF assms]) simp
  then have "importPasses ext data (log INFO ''Starting import...'' h) =
             importPasses ext data' (log INFO ''Starting import...'' h)"
    by (cases "importPasses ext data (log INFO ''Starting import...'' h)";
        cases "importPasses ext data' (log INFO ''Starting import...'' h)")
       (auto simp: run_rel_def)
  then show ?thesis by (simp add: handleImport_def)
qed


section \<open>Entries that are not objects\<close>

text \<open>
  A group inside a token tree: \<open>plug frames es\<close> wraps the entries \<open>es\<close> in the groups
  of \<open>frames\<close>, outermost first, each frame giving the entries before the nested
  group, its key and the entries after it.  \<open>nested_groups\<close> says that none of the
  wrapped objects passes the leaf test, so that the traversal recurses into each.
  \<open>document_with\<close> is a root document around one token tree.
\<close>

type_synonym frame = "(string \<times> js) list \<times> string \<times> (string \<times> js) list"

fun plug :: "frame list \<Rightarrow> (string \<times> js) list \<Rightarrow> (string \<times> js) list" where
  "plug [] es = es"
| "plug ((before, key, after) # frames) es = before @ (key, JObj (plug frames es)) # after"

fun nested_groups :: "frame list \<Rightarrow> (string \<times> js) list \<Rightarrow> bool" where
  "nested_groups [] es = True"
| "nested_groups ((before, key, after) # frames) es =
     (\<not> isVariable (JObj (plug frames es)) \<and> nested_groups frames es)"

definition document_with ::
  "JSONRoot \<Rightarrow> string \<Rightarrow> JSONCollection \<Rightarrow> string \<Rightarrow> JSONCollection \<Rightarrow> JSONRoot \<Rightarrow> js \<Rightarrow> JSONRoot" where
  "document_with cbefore collectionName mbefore modeName mafter cafter tree =
     cbefore @ (collectionName, mbefore @ (modeName, tree) # mafter) # cafter"

lemma isVariable_keys:
  assumes "set (map fst kvs') \<subseteq> set (map fst kvs)" "\<not> isVariable (JObj kvs)"
  shows "\<not> isVariable (JObj kvs')"
  using assms by (auto simp: isVariable_def)

lemma plug_keys:
  assumes "set (map fst es') \<subseteq> set (map fst es)"
  shows "set (map fst (plug frames es')) \<subseteq> set (map fst (plug frames es))"
proof (cases frames)
  case Nil
  with assms show ?thesis by simp
next
  case (Cons fr rest)
  obtain before key after where "fr = (before, key, after)" by (cases fr)
  with Cons show ?thesis by simp
qed

lemma flattenLoop_group:
  assumes "\<not> isVariable (JObj props)" "\<not> isVariable (JObj props')"
    and "\<And>f. flattenLoop (newKey_of prefix key) props f [] = flattenLoop (newKey_of prefix key) props' f []"
  shows "flattenLoop prefix ((key, JObj props) # rest) f r =
         flattenLoop prefix ((key, JObj props') # rest) f r"
  using assms by simp

lemma flattenLoop_plug:
  assumes "\<And>prefix f r. flattenLoop prefix es f r = flattenLoop prefix es' f r"
    and "set (map fst es') \<subseteq> set (map fst es)"
    and "nested_groups frames es"
  shows "flattenLoop prefix (plug frames es) f r = flattenLoop prefix (plug frames es') f r"
  using assms(3)
proof (induction frames arbitrary: prefix f r)
  case Nil
  show ?case by (simp add: assms(1))
next
  case (Cons fr frames)
  obtain before key after where fr: "fr = (before, key, after)" by (cases fr)
  from Cons.prems fr have g: "\<not> isVariable (JObj (plug frames es))" and n: "nested_groups frames es"
    by simp_all
  have g': "\<not> isVariable (JObj (plug frames es'))"
    by (rule isVariable_keys [OF plug_keys [OF assms(2)] g])
  have inner: "flattenLoop p (plug frames es) f0 r0 = flattenLoop p (plug frames es') f0 r0" for p f0 r0
    by (rule Cons.IH [OF n])
  have step: "flattenLoop prefix ((key, JObj (plug frames es)) # after) f0 r0 =
              flattenLoop prefix ((key, JObj (plug frames es')) # after) f0 r0" for f0 r0
    by (rule flattenLoop_group [OF g g']) (rule inner)
  show ?case
    unfolding fr plug.simps flattenLoop_append [of prefix before] step ..
qed

lemma tree_rel_eq:
  assumes "\<And>f. flattenVariables t [] f = flattenVariables t' [] f"
  shows "tree_rel (=) t t'"
proof -
  have "flat_rel (=) (flattenVariables t' [] f) (flattenVariables t' [] f)" for f
    by (cases "flattenVariables t' [] f") (simp_all add: flat_rel_def maps_equiv_refl)
  then show ?thesis by (simp add: tree_rel_def assms)
qed

lemma tree_rel_refl: "tree_rel (=) t t"
  by (rule tree_rel_eq) simp

lemma modes_rel_refl: "modes_rel (=) ms ms"
  by (simp add: modes_rel_def list_all2_same tree_rel_refl)

lemma doc_rel_refl: "doc_rel (=) data data"
  by (simp add: doc_rel_def list_all2_same modes_rel_refl)

lemma document_with_rel:
  assumes "tree_rel (=) t t'"
  shows "doc_rel (=) (document_with cb c mb m ma ca t) (document_with cb c mb m ma ca t')"
proof -
  have "modes_rel (=) (mb @ (m, t) # ma) (mb @ (m, t') # ma)"
    unfolding modes_rel_def
    using assms modes_rel_refl [of mb] modes_rel_refl [of ma]
    by (intro list_all2_appendI) (simp_all add: modes_rel_def)
  then show ?thesis
    unfolding doc_rel_def document_with_def
    using doc_rel_refl [of cb] doc_rel_refl [of ca]
    by (intro list_all2_appendI) (simp_all add: doc_rel_def)
qed

text \<open>
  Claim C10.  A group entry whose value is not an object (a string, a number, a
  boolean, null: anything failing \<^verbatim>\<open>value && typeof value === 'object'\<close>) is
  omitted by the traversal, at whatever depth the group lies: the loop over the
  group's entries, the flattening of the tree and the whole import give what they
  give without the entry.
\<close>

theorem bare_entries_are_invisible:
  assumes "\<not> (truthy v \<and> typeof v = ''object'')"
    and "nested_groups frames (before @ (key, v) # after)"
  shows "flattenLoop prefix (plug frames (before @ (key, v) # after)) hasLegacy result =
           flattenLoop prefix (plug frames (before @ after)) hasLegacy result \<and>
         flattenVariables (JObj (plug frames (before @ (key, v) # after))) prefix hasLegacy =
           flattenVariables (JObj (plug frames (before @ after))) prefix hasLegacy \<and>
         handleImport ext
           (document_with cbefore collectionName mbefore modeName mafter cafter
              (JObj (plug frames (before @ (key, v) # after)))) h =
         handleImport ext
           (document_with cbefore collectionName mbefore modeName mafter cafter
              (JObj (plug frames (before @ after)))) h"
proof -
  have base: "flattenLoop p (before @ (key, v) # after) f r = flattenLoop p (before @ after) f r"
    for p f r
    by (simp only: flattenLoop_append [of p before] flattenLoop_skip [OF assms(1)])
  have keys: "set (map fst (before @ after)) \<subseteq> set (map fst (before @ (key, v) # after))"
    by auto
  have loop: "flattenLoop p (plug frames (before @ (key, v) # after)) f r =
              flattenLoop p (plug frames (before @ after)) f r" for p f r
    by (rule flattenLoop_plug [OF base keys assms(2)])
  have flat: "flattenVariables (JObj (plug frames (before @ (key, v) # after))) p f =
              flattenVariables (JObj (plug frames (before @ after))) p f" for p f
    by (simp add: flattenVariables_def loop)
  have "tree_rel (=) (JObj (plug frames (before @ (key, v) # after)))
          (JObj (plug frames (before @ after)))"
    by (rule tree_rel_eq) (rule flat)
  then have imp: "handleImport ext
           (document_with cbefore collectionName mbefore modeName mafter cafter
              (JObj (plug frames (before @ (key, v) # after)))) h =
         handleImport ext
           (document_with cbefore collectionName mbefore modeName mafter cafter
              (JObj (plug frames (before @ after)))) h"
    by (intro handleImport_cong document_with_rel)
  show ?thesis using loop flat imp by (intro conjI)
qed


text \<open>
  A bare string at \<^verbatim>\<open>Color/Primary\<close> beside a token at \<^verbatim>\<open>Color/Real\<close>: the import
  creates the second variable only.
\<close>

definition dtcg_token :: "string \<Rightarrow> js \<Rightarrow> js" where
  "dtcg_token t v = JObj [(''$type'', JStr t), (''$value'', v)]"

definition bare_document :: "bool \<Rightarrow> JSONRoot" where
  "bare_document withBare =
     document_with [] ''Brand'' [] ''Light'' [] []
       (JObj (plug [([], ''Color'', [])]
          ((if withBare then [(''Primary'', JStr ''#FF0000'')] else []) @
           [(''Real'', dtcg_token ''color'' (JStr ''#00FF00''))])))"

theorem bare_entries_are_invisible_witness:
  "\<not> (truthy (JStr ''#FF0000'') \<and> typeof (JStr ''#FF0000'') = ''object'') \<and>
   \<not> (truthy (JNum 4) \<and> typeof (JNum 4) = ''object'') \<and>
   \<not> (truthy (JBool True) \<and> typeof (JBool True) = ''object'') \<and>
   \<not> (truthy JNull \<and> typeof JNull = ''object'') \<and>
   nested_groups [([], ''Color'', [])]
     ([] @ (''Primary'', JStr ''#FF0000'') # [(''Real'', dtcg_token ''color'' (JStr ''#00FF00''))]) \<and>
   map variable_name (variables (handleImport typed_host (bare_document True) empty_host)) =
     [''Color/Real'']"
proof -
  have h1: "\<not> (truthy (JStr ''#FF0000'') \<and> typeof (JStr ''#FF0000'') = ''object'')"
    by simp
  have h2: "nested_groups [([], ''Color'', [])]
     ([] @ (''Primary'', JStr ''#FF0000'') # [(''Real'', dtcg_token ''color'' (JStr ''#00FF00''))])"
    by (simp add: isVariable_def dtcg_token_def)
  have e: "handleImport typed_host (bare_document True) empty_host =
           handleImport typed_host (bare_document False) empty_host"
    using bare_entries_are_invisible [OF h1 h2, of "[]" False "[]" typed_host "[]" "''Brand''" "[]"
        "''Light''" "[]" "[]" empty_host]
    by (simp add: bare_document_def)
  have r: "map variable_name (variables (handleImport typed_host (bare_document False) empty_host)) =
     [''Color/Real'']"
    by code_simp
  show ?thesis using h1 h2 r by (simp only: e simp_thms) simp
qed

section \<open>Coercion of strings in Pass 3\<close>

lemma convertType_float:
  "convertType ext FLOAT (JStr s) =
     (case parseFloat ext s of Some parsed \<Rightarrow> Inr (JNum parsed) | None \<Rightarrow> Inr (JStr s))"
  by (simp add: convertType_def)

lemma convertType_boolean_false:
  "toLowerCase s = ''false'' \<Longrightarrow> convertType ext BOOLEAN (JStr s) = Inr (JBool False)"
  by (simp add: convertType_def call_toLowerCase_def)

lemma convertType_boolean_other:
  "toLowerCase s \<noteq> ''true'' \<Longrightarrow> toLowerCase s \<noteq> ''false'' \<Longrightarrow>
   convertType ext BOOLEAN (JStr s) = Inr (JStr s)"
  by (simp add: convertType_def call_toLowerCase_def)

lemma convertType_boolean_true:
  "toLowerCase s = ''true'' \<Longrightarrow> convertType ext BOOLEAN (JStr s) = Inl TypeError"
  by (simp add: convertType_def call_toLowerCase_def)

definition boolean_document :: JSONRoot where
  "boolean_document =
     [(''Flags'', [(''Mode'', JObj [(''on'', dtcg_token ''boolean'' (JStr ''true'')),
                                    (''off'', dtcg_token ''boolean'' (JStr ''false''))])])]"

text \<open>
  Claim C8 says that a string equal to \<^verbatim>\<open>true\<close> up to case becomes the boolean
  \<^verbatim>\<open>true\<close> for a BOOLEAN variable.  In the code the statement that tests for
  \<^verbatim>\<open>false\<close> (line 981) runs after the one that tests for \<^verbatim>\<open>true\<close> and calls
  \<^verbatim>\<open>toLowerCase\<close> on the boolean the first one has just stored: a TypeError, caught
  and logged by the handler of the item.  The import of a document with the tokens
  \<^verbatim>\<open>on = "true"\<close> and \<^verbatim>\<open>off = "false"\<close> sets \<^verbatim>\<open>off\<close> and leaves \<^verbatim>\<open>on\<close> without a value.
\<close>

theorem boolean_true_is_not_set:
  "convertType typed_host BOOLEAN (JStr ''true'') = Inl TypeError \<and>
   map (\<lambda>v. (variable_name v, resolvedType v, valuesByMode v))
     (variables (handleImport typed_host boolean_document empty_host)) =
     [(''on'', BOOLEAN, []), (''off'', BOOLEAN, [(1, BooleanValue False)])] \<and>
   filter (\<lambda>e. case e of LogException p x \<Rightarrow> True | _ \<Rightarrow> False)
     (events (handleImport typed_host boolean_document empty_host)) =
     [LogException (''Error setting value for '' @ dq @ ''on'' @ dq @ '': '') TypeError]"
  by code_simp

section \<open>Explicit alias fields\<close>

lemma update_values:
  assumes "P v" "list_all (\<lambda>x. P (snd x)) m"
  shows "list_all (\<lambda>x. P (snd x)) (AList.update k v m)"
  using assms by (induction m) auto

lemma map_set_all_values:
  assumes "list_all (\<lambda>x. P (snd x)) children" "list_all (\<lambda>x. P (snd x)) m"
  shows "list_all (\<lambda>x. P (snd x)) (map_set_all children m)"
  using assms unfolding map_set_all_def
proof (induction children arbitrary: m)
  case Nil
  then show ?case by simp
next
  case (Cons c cs)
  obtain k r where c: "c = (k, r)" by (cases c)
  from Cons.prems c have "list_all (\<lambda>x. P (snd x)) (map_set k r m)"
    by (simp add: map_set_def update_values)
  with Cons.IH [of "map_set k r m"] Cons.prems(1) c show ?case by simp
qed

lemma flattenLoop_values:
  assumes "\<And>v. P (normalized v)" "list_all (\<lambda>x. P (snd x)) result"
  shows "list_all (\<lambda>x. P (snd x)) (snd (flattenLoop prefix es hasLegacy result))"
  using assms(2)
proof (induction prefix es hasLegacy result rule: flattenLoop.induct)
  case (1 prefix hasLegacy result)
  then show ?case by simp
next
  case (2 prefix key v rest hasLegacy result)
  note leaf = update_values [of P, OF assms(1) "2.prems", folded map_set_def]
  show ?case
  proof (cases "startsWith key ''_'' \<or> startsWith key ''$''")
    case True
    with 2 show ?thesis by simp
  next
    case False
    show ?thesis
    proof (cases v)
      case (JObj props)
      show ?thesis
      proof (cases "isVariable v")
        case True
        with False JObj 2(10) [OF False JObj True leaf] show ?thesis by simp
      next
        case nv: False
        obtain f' children where c: "flattenLoop (newKey_of prefix key) props hasLegacy [] = (f', children)"
          by (cases "flattenLoop (newKey_of prefix key) props hasLegacy []")
        have ch: "list_all (\<lambda>x. P (snd x)) children"
          using 2(11) [OF False JObj nv] c by simp
        from 2(12) [OF False JObj nv c [symmetric] map_set_all_values [OF ch "2.prems"]] False JObj nv c
        show ?thesis by simp
      qed
    next
      case (JArr elems)
      show ?thesis
      proof (cases "isVariable v")
        case True
        with False JArr 2(7) [OF False JArr True leaf] show ?thesis by simp
      next
        case nv: False
        obtain f' children where
          c: "flattenLoop (newKey_of prefix key) (entries_of_array 0 elems) hasLegacy [] = (f', children)"
          by (cases "flattenLoop (newKey_of prefix key) (entries_of_array 0 elems) hasLegacy []")
        have ch: "list_all (\<lambda>x. P (snd x)) children"
          using 2(8) [OF False JArr nv] c by simp
        from 2(9) [OF False JArr nv c [symmetric] map_set_all_values [OF ch "2.prems"]] False JArr nv c
        show ?thesis by simp
      qed
    qed (use False 2 in simp_all)
  qed
qed

text \<open>
  No record that \<open>flattenVariables\<close> returns carries an alias field, so the first
  test of \<open>detectAlias\<close> never holds during an import.
\<close>

definition no_targets :: "JSONVariableValue \<Rightarrow> bool" where
  "no_targets r = (targetCollection r = None \<and> targetVariable r = None)"

lemma flattenVariables_no_targets:
  assumes "flattenVariables obj prefix hasLegacy = Inr (hasLegacy', vars)" "(k, r) \<in> set vars"
  shows "targetCollection r = None \<and> targetVariable r = None \<and>
         detectAlias r = stringAlias (dollar_value r)"
proof -
  obtain es where es: "Object_entries obj = Inr es" and
    v: "flattenLoop prefix es hasLegacy [] = (hasLegacy', vars)"
    using assms(1) by (cases "Object_entries obj") (simp_all add: flattenVariables_def)
  have "no_targets (normalized v)" for v
    by (simp add: no_targets_def normalized_def)
  then have "list_all (\<lambda>x. no_targets (snd x)) (snd (flattenLoop prefix es hasLegacy []))"
    by (rule flattenLoop_values) simp
  with v assms(2) have "no_targets r" by (auto simp: list_all_iff)
  then show ?thesis by (simp add: detectAlias_def no_targets_def)
qed

definition explicit_alias_document :: JSONRoot where
  "explicit_alias_document =
     [(''A'', [(''M'', JObj [(''x'', dtcg_token ''color'' (JStr ''#FF0000'')),
                             (''y'', JObj [(''$type'', JStr ''color''), (''$value'', JStr ''#000000''),
                                           (''targetCollection'', JStr ''A''),
                                           (''targetVariable'', JStr ''x'')])])])]"

text \<open>
  Claim C3 says that a record carrying both \<^verbatim>\<open>targetCollection\<close> and
  \<^verbatim>\<open>targetVariable\<close> is treated as an alias with that target.  Pass 3 tests the two
  fields (line 904), but the records it gets are the normalized ones of lines
  422-426, which never carry them.  In the document below the token \<^verbatim>\<open>y\<close> names the
  variable \<^verbatim>\<open>x\<close> of collection \<^verbatim>\<open>A\<close> as its target; the import gives \<^verbatim>\<open>y\<close> the colour
  of its \<^verbatim>\<open>$value\<close> instead of an alias to \<^verbatim>\<open>x\<close> (variable 2).
\<close>

theorem explicit_alias_fields_are_dropped:
  "map (\<lambda>v. (variable_id v, variable_name v, valuesByMode v))
     (variables (handleImport typed_host explicit_alias_document empty_host)) =
     [(2, ''x'', [(1, ColorValue 1 0 0 None)]), (3, ''y'', [(1, ColorValue 0 0 0 None)])]"
  by code_simp


section \<open>Resolution of an alias\<close>

text \<open>
  Progress reports and log entries change the event list only; the lookups of
  Pass 3 read the collections and the variables.
\<close>

lemma emit_fields [simp]:
  "collections (emit e h) = collections h" "variables (emit e h) = variables h"
  "nextId (emit e h) = nextId h" "events (emit e h) = events h @ [e]"
  by (simp_all add: emit_def)

lemma progress_fields [simp]:
  "collections (progress what n len h) = collections h"
  "variables (progress what n len h) = variables h"
  "nextId (progress what n len h) = nextId h"
  by (simp_all add: progress_def)

lemma exactMatch_progress [simp]:
  "exactMatch (progress what n len h) tc tv = exactMatch h tc tv"
  by (simp add: exactMatch_def cong: option.case_cong)

lemma fuzzyMatch_progress [simp]:
  "fuzzyMatch (progress what n len h) tv = fuzzyMatch h tv"
  by (simp add: fuzzyMatch_def)

lemma findVariable_progress [simp]:
  "findVariable name cid (progress what n len h) = findVariable name cid h"
  by (simp add: findVariable_def)

lemma findVariable_emit [simp]:
  "findVariable name cid (emit e h) = findVariable name cid h"
  by (simp add: findVariable_def)

text \<open>
  \<^verbatim>\<open>collections.find(c => c.name === targetCollectionName)\<close> (line 924) returns the
  first collection of that name in the host's order.
\<close>

definition firstCollectionNamed :: "host \<Rightarrow> string \<Rightarrow> VariableCollection option" where
  "firstCollectionNamed h name = find (\<lambda>c. collection_name c = name) (collections h)"

lemma exactMatch_None_iff:
  "exactMatch h tc tv = None \<longleftrightarrow>
     (\<forall>col. firstCollectionNamed h tc = Some col \<longrightarrow>
        (\<forall>v \<in> set (variables h).
           \<not> (variable_name v = tv \<and> variableCollectionId v = collection_id col)))"
proof (cases "find (\<lambda>c. collection_name c = tc) (collections h)")
  case None
  then show ?thesis by (simp add: exactMatch_def firstCollectionNamed_def)
next
  case (Some col)
  then show ?thesis by (auto simp: exactMatch_def find_None_iff firstCollectionNamed_def)
qed

lemma exactMatch_SomeD:
  assumes "exactMatch h tc tv = Some w"
  shows "w \<in> set (variables h) \<and> variable_name w = tv \<and>
         (\<exists>col. firstCollectionNamed h tc = Some col \<and>
            variableCollectionId w = collection_id col)"
proof -
  from assms obtain col where
    c: "find (\<lambda>c. collection_name c = tc) (collections h) = Some col" and
    v: "find (\<lambda>v. variable_name v = tv \<and> variableCollectionId v = collection_id col)
          (variables h) = Some w"
    by (cases "find (\<lambda>c. collection_name c = tc) (collections h)")
       (simp_all add: exactMatch_def)
  from v have "w \<in> set (variables h)" "variable_name w = tv"
    "variableCollectionId w = collection_id col"
    by (auto simp: find_Some_iff)
  with c show ?thesis by (simp add: firstCollectionNamed_def)
qed

lemma fuzzyMatch_SomeD:
  assumes "fuzzyMatch h tv = Some w"
  shows "w \<in> set (variables h) \<and> variable_name w = tv \<and>
         (\<exists>i < length (variables h). variables h ! i = w \<and>
            (\<forall>j < i. variable_name (variables h ! j) \<noteq> tv))"
  using assms by (auto simp: fuzzyMatch_def find_Some_iff)


text \<open>
  Two variables named \<^verbatim>\<open>Color/Primary\<close>, the one of collection \<^verbatim>\<open>B\<close> listed first:
  \<^verbatim>\<open>{A.Color.Primary}\<close> resolves to the variable of \<^verbatim>\<open>A\<close> without a warning, and
  \<^verbatim>\<open>{Z.Color.Primary}\<close> to the variable of \<^verbatim>\<open>B\<close> with one.
\<close>

definition two_primaries :: host where
  "two_primaries =
     \<lparr> collections =
         [\<lparr> collection_id = 10, collection_name = ''B'',
            collection_modes = [\<lparr> modeId = 11, mode_name = ''Light'' \<rparr>] \<rparr>,
          \<lparr> collection_id = 0, collection_name = ''A'',
            collection_modes = [\<lparr> modeId = 1, mode_name = ''Light'' \<rparr>] \<rparr>],
       variables =
         [\<lparr> variable_id = 12, variable_name = ''Color/Primary'', variableCollectionId = 10,
            resolvedType = COLOR, valuesByMode = [(11, ColorValue 0 0 1 None)] \<rparr>,
          \<lparr> variable_id = 2, variable_name = ''Color/Primary'', variableCollectionId = 0,
            resolvedType = COLOR, valuesByMode = [(1, ColorValue 1 0 0 None)] \<rparr>],
       nextId = 13, events = [] \<rparr>"


text \<open>
  The host does not keep collection names distinct.  With two collections named
  \<^verbatim>\<open>A\<close>, the variable \<^verbatim>\<open>x\<close> lying in the second, there is a collection named \<^verbatim>\<open>A\<close>
  with a variable \<^verbatim>\<open>x\<close> of its id, yet \<^verbatim>\<open>{A.x}\<close> is resolved by the fallback and
  the warning is logged: only the first collection named \<^verbatim>\<open>A\<close> is looked at.
\<close>

definition same_names :: host where
  "same_names =
     \<lparr> collections =
         [\<lparr> collection_id = 0, collection_name = ''A'',
            collection_modes = [\<lparr> modeId = 1, mode_name = ''Light'' \<rparr>] \<rparr>,
          \<lparr> collection_id = 10, collection_name = ''A'',
            collection_modes = [\<lparr> modeId = 11, mode_name = ''Light'' \<rparr>] \<rparr>],
       variables =
         [\<lparr> variable_id = 12, variable_name = ''x'', variableCollectionId = 10,
            resolvedType = COLOR, valuesByMode = [(11, ColorValue 0 0 1 None)] \<rparr>],
       nextId = 13, events = [] \<rparr>"



section \<open>An alias that resolves to nothing\<close>

text \<open>
  Pass 3 fails as a whole only when the entries of a mode's tree cannot be
  enumerated (\<^verbatim>\<open>Object.entries\<close> of \<^verbatim>\<open>null\<close> or \<^verbatim>\<open>undefined\<close>, line 399); whatever
  is thrown for one token is caught at lines 986-988.
\<close>

lemma flattenVariables_InlD:
  "flattenVariables t prefix f = Inl e \<Longrightarrow> Object_entries t = Inl e"
  by (cases "Object_entries t") (simp_all add: flattenVariables_def)

lemma pass3_modes_InlD:
  assumes "pass3_modes ext cid mm ms f h = Inl (e, h')"
  shows "\<exists>m t. (m, t) \<in> set ms \<and> Object_entries t = Inl e"
  using assms
proof (induction ms arbitrary: f h)
  case Nil
  then show ?case by simp
next
  case (Cons x xs)
  obtain m t where x: "x = (m, t)" by (cases x)
  show ?case
  proof (cases "modeMap_get mm m")
    case None
    with Cons.prems x have "pass3_modes ext cid mm xs f h = Inl (e, h')" by simp
    from Cons.IH [OF this] show ?thesis by auto
  next
    case (Some mid)
    show ?thesis
    proof (cases "flattenVariables t [] f")
      case (Inl e0)
      with Cons.prems x Some have "e0 = e" by simp
      with Inl have "Object_entries t = Inl e" by (simp add: flattenVariables_InlD)
      with x show ?thesis by auto
    next
      case (Inr gm)
      obtain g vars where gm: "gm = (g, vars)" by (cases gm)
      from Cons.prems x Some Inr gm
      have "pass3_modes ext cid mm xs g (pass3_variables ext cid mid vars 0 (length vars) h)
              = Inl (e, h')"
        by simp
      from Cons.IH [OF this] show ?thesis by auto
    qed
  qed
qed

lemma pass3_InlD:
  assumes "pass3 ext data cm mm f h = Inl (e, h')"
  shows "\<exists>c ms m t. (c, ms) \<in> set data \<and> (m, t) \<in> set ms \<and> Object_entries t = Inl e"
  using assms
proof (induction data arbitrary: f h)
  case Nil
  then show ?case by simp
next
  case (Cons x xs)
  obtain c ms where x: "x = (c, ms)" by (cases x)
  show ?case
  proof (cases "map_of cm c")
    case None
    with Cons.prems x have "pass3 ext xs cm mm f h = Inl (e, h')" by simp
    from Cons.IH [OF this] show ?thesis by auto
  next
    case (Some cid)
    show ?thesis
    proof (cases "pass3_modes ext cid (map_of mm c) ms f h")
      case (Inl eh)
      with Cons.prems x Some have "eh = (e, h')" by simp
      with Inl have "pass3_modes ext cid (map_of mm c) ms f h = Inl (e, h')" by simp
      from pass3_modes_InlD [OF this] obtain m t where
        "(m, t) \<in> set ms" "Object_entries t = Inl e" by blast
      with x show ?thesis by auto
    next
      case (Inr gh)
      obtain g h1 where gh: "gh = (g, h1)" by (cases gh)
      from Cons.prems x Some Inr gh have "pass3 ext xs cm mm g h1 = Inl (e, h')" by simp
      from Cons.IH [OF this] show ?thesis by auto
    qed
  qed
qed



text \<open>
  The messages logged at level WARN, in order.
\<close>

definition warnings :: "host \<Rightarrow> string list" where
  "warnings h =
     List.map_filter
       (\<lambda>e. case e of Log l m \<Rightarrow> (if l = WARN then Some m else None) | _ \<Rightarrow> None)
       (events h)"

text \<open>
  \<^verbatim>\<open>{Nonexistent.Path}\<close> as the value of a token of the first mode, and of a token
  that only a later mode declares.
\<close>

definition unresolved_record :: JSONVariableValue where
  "unresolved_record = normalized (dtcg_token ''color'' (JStr ''{Nonexistent.Path}''))"

definition unresolved_document :: JSONRoot where
  "unresolved_document =
     [(''A'', [(''Light'', JObj [(''y'', dtcg_token ''color'' (JStr ''{Nonexistent.Path}''))])])]"

definition later_mode_document :: JSONRoot where
  "later_mode_document =
     [(''A'', [(''Light'', JObj []),
               (''Dark'', JObj [(''y'', dtcg_token ''color'' (JStr ''{Nonexistent.Path}''))])])]"




section \<open>The two dialects of a leaf\<close>

text \<open>
  The import reads a record through its resolved type and its value, so that maps
  with equivalent records are interchangeable.  \<open>flag_le a b\<close> relates the legacy
  flags of two runs of which the first has raised the flag whenever the second has.
  \<open>flattens_alike es es'\<close>: from equivalent maps and related flags the loop over
  \<open>es\<close> and the loop over \<open>es'\<close> give equivalent maps and related flags.
\<close>

lemma update_equiv:
  assumes "rec_equiv v v'" "maps_equiv m m'"
  shows "maps_equiv (map_set k v m) (map_set k v' m')"
  using assms(2) unfolding maps_equiv_def map_set_def
proof (induction m m' rule: list_all2_induct)
  case Nil
  show ?case using assms(1) by simp
next
  case (Cons x xs y ys)
  obtain k0 r0 where x: "x = (k0, r0)" by (cases x)
  obtain k1 r1 where y: "y = (k1, r1)" by (cases y)
  from Cons.hyps(1) x y have k: "k1 = k0" and r: "rec_equiv r0 r1" by simp_all
  show ?case
    unfolding x y k using assms(1) r Cons.hyps(2) Cons.IH by simp
qed

lemma map_set_all_equiv:
  assumes "maps_equiv c c'" "maps_equiv m m'"
  shows "maps_equiv (map_set_all c m) (map_set_all c' m')"
  using assms unfolding map_set_all_def
proof (induction c arbitrary: c' m m')
  case Nil
  then show ?case by (simp add: maps_equiv_def)
next
  case (Cons x xs)
  from Cons.prems(1) obtain y ys where c': "c' = y # ys"
    and xy: "fst x = fst y" "rec_equiv (snd x) (snd y)" and rest: "maps_equiv xs ys"
    by (auto simp: maps_equiv_def list_all2_Cons1)
  have "maps_equiv (map_set (fst x) (snd x) m) (map_set (fst x) (snd y) m')"
    by (rule update_equiv [OF xy(2) Cons.prems(2)])
  from Cons.IH [OF rest this] show ?case
    unfolding c' using xy(1) by (cases x; cases y) simp
qed

definition flag_le :: "bool \<Rightarrow> bool \<Rightarrow> bool" where
  "flag_le a b = (b \<longrightarrow> a)"

definition flattens_alike :: "(string \<times> js) list \<Rightarrow> (string \<times> js) list \<Rightarrow> bool" where
  "flattens_alike es es' =
     (\<forall>p f f' r r'. maps_equiv r r' \<longrightarrow> flag_le f f' \<longrightarrow>
        maps_equiv (snd (flattenLoop p es f r)) (snd (flattenLoop p es' f' r')) \<and>
        flag_le (fst (flattenLoop p es f r)) (fst (flattenLoop p es' f' r')))"

lemma flattens_alikeD:
  assumes "flattens_alike es es'" "maps_equiv r r'" "flag_le f f'"
  shows "maps_equiv (snd (flattenLoop p es f r)) (snd (flattenLoop p es' f' r'))"
    and "flag_le (fst (flattenLoop p es f r)) (fst (flattenLoop p es' f' r'))"
  using assms unfolding flattens_alike_def by blast+

lemma flattenLoop_rel:
  assumes "maps_equiv result result'" "flag_le hasLegacy hasLegacy'"
  shows "maps_equiv (snd (flattenLoop prefix es hasLegacy result))
           (snd (flattenLoop prefix es hasLegacy' result')) \<and>
         flag_le (fst (flattenLoop prefix es hasLegacy result))
           (fst (flattenLoop prefix es hasLegacy' result'))"
  using assms
proof (induction prefix es hasLegacy result arbitrary: hasLegacy' result' rule: flattenLoop.induct)
  case (1 prefix hasLegacy result)
  then show ?case by simp
next
  case (2 prefix key v rest hasLegacy result)
  note leaf = update_equiv [OF rec_equiv_refl "2.prems"(1), of "newKey_of prefix key" "normalized v"]
  from "2.prems"(2) have flag: "flag_le (hasLegacy \<or> isLegacy v) (hasLegacy' \<or> isLegacy v)"
    by (simp add: flag_le_def)
  have nil: "maps_equiv [] []" by (simp add: maps_equiv_def)
  show ?case
  proof (cases "startsWith key ''_'' \<or> startsWith key ''$''")
    case True
    with 2 show ?thesis by simp
  next
    case False
    show ?thesis
    proof (cases v)
      case (JObj props)
      show ?thesis
      proof (cases "isVariable v")
        case True
        with False JObj 2(10) [OF False JObj True leaf flag] show ?thesis by simp
      next
        case nv: False
        obtain f1 children where
          c: "flattenLoop (newKey_of prefix key) props hasLegacy [] = (f1, children)"
          by (cases "flattenLoop (newKey_of prefix key) props hasLegacy []")
        obtain f1' children' where
          c': "flattenLoop (newKey_of prefix key) props hasLegacy' [] = (f1', children')"
          by (cases "flattenLoop (newKey_of prefix key) props hasLegacy' []")
        from 2(11) [OF False JObj nv nil "2.prems"(2)] c c'
        have ch: "maps_equiv children children'" and fl: "flag_le f1 f1'" by simp_all
        from 2(12) [OF False JObj nv c [symmetric] map_set_all_equiv [OF ch "2.prems"(1)] fl]
          False JObj nv c c'
        show ?thesis by simp
      qed
    next
      case (JArr elems)
      show ?thesis
      proof (cases "isVariable v")
        case True
        with False JArr 2(7) [OF False JArr True leaf flag] show ?thesis by simp
      next
        case nv: False
        obtain f1 children where
          c: "flattenLoop (newKey_of prefix key) (entries_of_array 0 elems) hasLegacy [] = (f1, children)"
          by (cases "flattenLoop (newKey_of prefix key) (entries_of_array 0 elems) hasLegacy []")
        obtain f1' children' where
          c': "flattenLoop (newKey_of prefix key) (entries_of_array 0 elems) hasLegacy' [] = (f1', children')"
          by (cases "flattenLoop (newKey_of prefix key) (entries_of_array 0 elems) hasLegacy' []")
        from 2(8) [OF False JArr nv nil "2.prems"(2)] c c'
        have ch: "maps_equiv children children'" and fl: "flag_le f1 f1'" by simp_all
        from 2(9) [OF False JArr nv c [symmetric] map_set_all_equiv [OF ch "2.prems"(1)] fl]
          False JArr nv c c'
        show ?thesis by simp
      qed
    qed (use False 2 in simp_all)
  qed
qed

lemma flattens_alike_refl: "flattens_alike es es"
  unfolding flattens_alike_def by (intro allI impI) (rule flattenLoop_rel)

lemma flattens_alike_append:
  assumes "flattens_alike xs xs'" "flattens_alike ys ys'"
  shows "flattens_alike (xs @ ys) (xs' @ ys')"
  unfolding flattens_alike_def
proof (intro allI impI)
  fix p f f' r r'
  assume r: "maps_equiv r r'" and f: "flag_le f f'"
  obtain f1 r1 where a: "flattenLoop p xs f r = (f1, r1)" by (cases "flattenLoop p xs f r")
  obtain f1' r1' where a': "flattenLoop p xs' f' r' = (f1', r1')"
    by (cases "flattenLoop p xs' f' r'")
  from flattens_alikeD [OF assms(1) r f, of p] a a'
  have r1: "maps_equiv r1 r1'" and f1: "flag_le f1 f1'" by simp_all
  from flattens_alikeD [OF assms(2) r1 f1, of p]
  show "maps_equiv (snd (flattenLoop p (xs @ ys) f r)) (snd (flattenLoop p (xs' @ ys') f' r')) \<and>
        flag_le (fst (flattenLoop p (xs @ ys) f r)) (fst (flattenLoop p (xs' @ ys') f' r'))"
    by (simp add: flattenLoop_append a a')
qed

lemma flattens_alike_group:
  assumes "flattens_alike props props'"
    and "\<not> isVariable (JObj props)" "\<not> isVariable (JObj props')"
  shows "flattens_alike [(key, JObj props)] [(key, JObj props')]"
  unfolding flattens_alike_def
proof (intro allI impI)
  fix p f f' r r'
  assume r: "maps_equiv r r'" and f: "flag_le f f'"
  have nil: "maps_equiv [] []" by (simp add: maps_equiv_def)
  obtain f1 ch where a: "flattenLoop (newKey_of p key) props f [] = (f1, ch)"
    by (cases "flattenLoop (newKey_of p key) props f []")
  obtain f1' ch' where a': "flattenLoop (newKey_of p key) props' f' [] = (f1', ch')"
    by (cases "flattenLoop (newKey_of p key) props' f' []")
  from flattens_alikeD [OF assms(1) nil f, of "newKey_of p key"] a a'
  have c: "maps_equiv ch ch'" and f1: "flag_le f1 f1'" by simp_all
  note m = map_set_all_equiv [OF c r]
  show "maps_equiv (snd (flattenLoop p [(key, JObj props)] f r))
          (snd (flattenLoop p [(key, JObj props')] f' r')) \<and>
        flag_le (fst (flattenLoop p [(key, JObj props)] f r))
          (fst (flattenLoop p [(key, JObj props')] f' r'))"
    using assms(2,3) a a' r f m f1 by simp
qed

lemma flattens_alike_plug:
  assumes "flattens_alike es es'"
    and "set (map fst es') \<subseteq> set (map fst es)"
    and "nested_groups frames es"
  shows "flattens_alike (plug frames es) (plug frames es')"
  using assms(3)
proof (induction frames)
  case Nil
  show ?case by (simp add: assms(1))
next
  case (Cons fr frames)
  obtain before key after where fr: "fr = (before, key, after)" by (cases fr)
  from Cons.prems fr have g: "\<not> isVariable (JObj (plug frames es))" and n: "nested_groups frames es"
    by simp_all
  have g': "\<not> isVariable (JObj (plug frames es'))"
    by (rule isVariable_keys [OF plug_keys [OF assms(2)] g])
  have "flattens_alike (before @ [(key, JObj (plug frames es))] @ after)
          (before @ [(key, JObj (plug frames es'))] @ after)"
    by (intro flattens_alike_append flattens_alike_refl flattens_alike_group [OF Cons.IH [OF n] g g'])
  then show ?case by (simp add: fr)
qed

text \<open>
  The two dialects of a leaf with the type tag \<open>t\<close>, the value \<open>v\<close> and the
  description \<open>d\<close>.
\<close>

definition legacy_leaf :: "js \<Rightarrow> js \<Rightarrow> js \<Rightarrow> js" where
  "legacy_leaf t v d = JObj [(''type'', t), (''value'', v), (''description'', d)]"

definition dtcg_leaf :: "js \<Rightarrow> js \<Rightarrow> js \<Rightarrow> js" where
  "dtcg_leaf t v d = JObj [(''$type'', t), (''$value'', v), (''$description'', d)]"

lemma normalized_legacy_leaf:
  "normalized (legacy_leaf t v d) =
     \<lparr> dollar_type = t, dollar_value = v, dollar_description = d,
       targetCollection = None, targetVariable = None \<rparr>"
  by (simp add: normalized_def legacy_leaf_def js_or_def)

lemma normalized_dtcg_leaf:
  "normalized (dtcg_leaf t v d) =
     \<lparr> dollar_type = (if truthy t then t else JUndefined), dollar_value = v,
       dollar_description = (if truthy d then d else JUndefined),
       targetCollection = None, targetVariable = None \<rparr>"
  by (simp add: normalized_def dtcg_leaf_def js_or_def)

lemma leaves_are_variables:
  "isVariable (legacy_leaf t v d)" "isVariable (dtcg_leaf t v d)"
  "isLegacy (legacy_leaf t v d)" "\<not> isLegacy (dtcg_leaf t v d)"
  by (simp_all add: isVariable_def isLegacy_def legacy_leaf_def dtcg_leaf_def)

lemma leaves_rec_equiv:
  "rec_equiv (normalized (legacy_leaf t v d)) (normalized (dtcg_leaf t v d))"
  by (simp add: rec_equiv_def normalized_legacy_leaf normalized_dtcg_leaf variableType_def)

lemma flattens_alike_leaf:
  "flattens_alike [(key, legacy_leaf t v d)] [(key, dtcg_leaf t v d)]"
  unfolding flattens_alike_def
proof (intro allI impI)
  fix p f f' r r'
  assume r: "maps_equiv r r'" and f: "flag_le f f'"
  note m = update_equiv [OF leaves_rec_equiv r, of "newKey_of p key" t v d]
  have l: "flattenLoop p [(key, legacy_leaf t v d)] f r =
        (if startsWith key ''_'' \<or> startsWith key ''$'' then (f, r)
         else (True, map_set (newKey_of p key) (normalized (legacy_leaf t v d)) r))"
    using leaves_are_variables(1,3) [of t v d] by (simp add: legacy_leaf_def)
  have d: "flattenLoop p [(key, dtcg_leaf t v d)] f' r' =
        (if startsWith key ''_'' \<or> startsWith key ''$'' then (f', r')
         else (f', map_set (newKey_of p key) (normalized (dtcg_leaf t v d)) r'))"
    using leaves_are_variables(2,4) [of t v d] by (simp add: dtcg_leaf_def)
  show "maps_equiv (snd (flattenLoop p [(key, legacy_leaf t v d)] f r))
          (snd (flattenLoop p [(key, dtcg_leaf t v d)] f' r')) \<and>
        flag_le (fst (flattenLoop p [(key, legacy_leaf t v d)] f r))
          (fst (flattenLoop p [(key, dtcg_leaf t v d)] f' r'))"
    unfolding l d using r f m by (simp add: flag_le_def)
qed

lemma tree_rel_alike:
  assumes "flattens_alike es es'"
  shows "tree_rel flag_le (JObj es) (JObj es')"
  unfolding tree_rel_def flat_rel_def
proof (intro allI impI)
  fix f f' assume f: "flag_le f f'"
  have nil: "maps_equiv [] []" by (simp add: maps_equiv_def)
  from flattens_alikeD [OF assms nil f, of "[]"]
  show "rel_sum (=) (\<lambda>x y. flag_le (fst x) (fst y) \<and> maps_equiv (snd x) (snd y))
          (flattenVariables (JObj es) [] f) (flattenVariables (JObj es') [] f')"
    by (simp add: flattenVariables_def)
qed

lemma tree_rel_flag_refl: "tree_rel flag_le t t"
  unfolding tree_rel_def flat_rel_def
proof (intro allI impI)
  fix f f' assume f: "flag_le f f'"
  have nil: "maps_equiv [] []" by (simp add: maps_equiv_def)
  show "rel_sum (=) (\<lambda>x y. flag_le (fst x) (fst y) \<and> maps_equiv (snd x) (snd y))
          (flattenVariables t [] f) (flattenVariables t [] f')"
  proof (cases "Object_entries t")
    case (Inl e)
    then show ?thesis by (simp add: flattenVariables_def)
  next
    case (Inr ents)
    with flattenLoop_rel [OF nil f, of "[]" ents] show ?thesis
      by (simp add: flattenVariables_def)
  qed
qed

lemma modes_rel_flag_refl: "modes_rel flag_le ms ms"
  by (simp add: modes_rel_def list_all2_same tree_rel_flag_refl)

lemma doc_rel_flag_refl: "doc_rel flag_le data data"
  by (simp add: doc_rel_def list_all2_same modes_rel_flag_refl)

lemma document_with_flag_rel:
  assumes "tree_rel flag_le t t'"
  shows "doc_rel flag_le (document_with cb c mb m ma ca t) (document_with cb c mb m ma ca t')"
proof -
  have "modes_rel flag_le (mb @ (m, t) # ma) (mb @ (m, t') # ma)"
    unfolding modes_rel_def
    using assms modes_rel_flag_refl [of mb] modes_rel_flag_refl [of ma]
    by (intro list_all2_appendI) (simp_all add: modes_rel_def)
  then show ?thesis
    unfolding doc_rel_def document_with_def
    using doc_rel_flag_refl [of cb] doc_rel_flag_refl [of ca]
    by (intro list_all2_appendI) (simp_all add: doc_rel_def)
qed

lemma importCompleted_fields:
  "variables (importCompleted f h) = variables h"
  "collections (importCompleted f h) = collections h"
  by (simp_all add: importCompleted_def log_def emit_def)

lemma handleImport_flag:
  assumes "doc_rel flag_le data data'"
  shows "handleImport ext data h = handleImport ext data' h \<or>
         (\<exists>h'. handleImport ext data h = importCompleted True h' \<and>
               handleImport ext data' h = importCompleted False h')"
proof -
  let ?h = "log INFO ''Starting import...'' h"
  have rr: "run_rel flag_le (importPasses ext data ?h) (importPasses ext data' ?h)"
    by (rule importPasses_cong [OF assms]) (simp add: flag_le_def)
  show ?thesis
  proof (cases "importPasses ext data ?h")
    case (Inl eh)
    from rr have "importPasses ext data' ?h = Inl eh"
      unfolding Inl by (rule run_rel_InlD)
    with Inl show ?thesis by (simp add: handleImport_def)
  next
    case (Inr gh)
    obtain g h2 where gh: "gh = (g, h2)" by (cases gh)
    from rr Inr gh have "run_rel flag_le (Inr (g, h2)) (importPasses ext data' ?h)" by simp
    from run_rel_InrD [OF this] obtain g' where
      r': "importPasses ext data' ?h = Inr (g', h2)" and g: "flag_le g g'"
      by blast
    have a: "handleImport ext data h = importCompleted g h2"
      by (simp add: handleImport_def Inr gh)
    have b: "handleImport ext data' h = importCompleted g' h2"
      by (simp add: handleImport_def r')
    show ?thesis
    proof (cases "g = g'")
      case True
      with a b show ?thesis by simp
    next
      case False
      with g have "g = True" "g' = False" by (auto simp: flag_le_def)
      with a b show ?thesis by (intro disjI2 exI [of _ h2]) simp
    qed
  qed
qed

text \<open>
  The flag is only ever raised (line 417), and raised by a legacy leaf that the
  traversal reaches: \<open>reachable\<close> says that no key of the enclosing groups is
  skipped at line 401.
\<close>

lemma flattenLoop_sticky:
  "hasLegacy \<Longrightarrow> fst (flattenLoop prefix es hasLegacy result)"
proof (induction prefix es hasLegacy result rule: flattenLoop.induct)
  case (1 prefix hasLegacy result)
  then show ?case by simp
next
  case (2 prefix key v rest hasLegacy result)
  note flag = "2.prems"
  show ?case
  proof (cases "startsWith key ''_'' \<or> startsWith key ''$''")
    case True
    with 2 show ?thesis by simp
  next
    case False
    show ?thesis
    proof (cases v)
      case (JObj props)
      show ?thesis
      proof (cases "isVariable v")
        case True
        from flag have "hasLegacy \<or> isLegacy v" by simp
        from 2(10) [OF False JObj True this] False JObj True show ?thesis by simp
      next
        case nv: False
        obtain f1 children where
          c: "flattenLoop (newKey_of prefix key) props hasLegacy [] = (f1, children)"
          by (cases "flattenLoop (newKey_of prefix key) props hasLegacy []")
        from 2(11) [OF False JObj nv flag] c have f1: "f1" by simp
        from 2(12) [OF False JObj nv c [symmetric] f1] False JObj nv c
        show ?thesis by simp
      qed
    next
      case (JArr elems)
      show ?thesis
      proof (cases "isVariable v")
        case True
        from flag have "hasLegacy \<or> isLegacy v" by simp
        from 2(7) [OF False JArr True this] False JArr True show ?thesis by simp
      next
        case nv: False
        obtain f1 children where
          c: "flattenLoop (newKey_of prefix key) (entries_of_array 0 elems) hasLegacy [] = (f1, children)"
          by (cases "flattenLoop (newKey_of prefix key) (entries_of_array 0 elems) hasLegacy []")
        from 2(8) [OF False JArr nv flag] c have f1: "f1" by simp
        from 2(9) [OF False JArr nv c [symmetric] f1] False JArr nv c
        show ?thesis by simp
      qed
    qed (use False 2 in simp_all)
  qed
qed

fun reachable :: "frame list \<Rightarrow> bool" where
  "reachable [] = True"
| "reachable ((before, key, after) # frames) =
     (\<not> (startsWith key ''_'' \<or> startsWith key ''$'') \<and> reachable frames)"

lemma flattenLoop_sets_flag:
  assumes "nested_groups frames es" "reachable frames"
    and "\<And>p f r. fst (flattenLoop p es f r)"
  shows "fst (flattenLoop p (plug frames es) f r)"
  using assms(1,2)
proof (induction frames arbitrary: p f r)
  case Nil
  show ?case by (simp add: assms(3))
next
  case (Cons fr frames)
  obtain before key after where fr: "fr = (before, key, after)" by (cases fr)
  from Cons.prems fr have g: "\<not> isVariable (JObj (plug frames es))" and n: "nested_groups frames es"
    and k: "\<not> (startsWith key ''_'' \<or> startsWith key ''$'')" and re: "reachable frames"
    by simp_all
  obtain f1 r1 where a: "flattenLoop p before f r = (f1, r1)" by (cases "flattenLoop p before f r")
  obtain f2 ch where b: "flattenLoop (newKey_of p key) (plug frames es) f1 [] = (f2, ch)"
    by (cases "flattenLoop (newKey_of p key) (plug frames es) f1 []")
  from Cons.IH [OF n re, of "newKey_of p key" f1 "[]"] b have f2: "f2" by simp
  show ?case
    using g k a b f2 flattenLoop_sticky [of True p after "map_set_all ch r1"]
    by (simp add: fr flattenLoop_append)
qed



text \<open>
  \<^verbatim>\<open>{"Brand": {"Light": {"Color": {"Primary": ...}}}}\<close> with the leaf in the one or
  the other dialect: the same variable with the same colour, and the migration
  warning for the legacy document only.
\<close>

definition dialect_document :: "bool \<Rightarrow> JSONRoot" where
  "dialect_document legacy =
     document_with [] ''Brand'' [] ''Light'' [] []
       (JObj (plug [([], ''Color'', [])]
          ([] @ (''Primary'',
                 (if legacy then legacy_leaf else dtcg_leaf)
                   (JStr ''color'') (JStr ''#AABBCC'') (JStr ''Brand colour'')) # [])))"





end
